theory Spec2Isabelle
  imports Complex_Main
begin

section \<open>Exceptions as values\<close>

text \<open>
  A Python exception is a value of \<open>error\<close>; a computation that may raise returns
  \<open>error + 'a\<close>, with \<open>Inl\<close> for the exception. \<open>Raised\<close> stands for whatever an
  external collaborator (model, tokenizer, editor, scikit-learn, torch) raises.
\<close>

datatype error =
    ValueError string
  | KeyError string
  | TypeError string
  | AttributeError string
  | NameError string
  | Raised string

text \<open>Sequencing: the first exception ends the computation.\<close>

definition bindE :: "error + 'a \<Rightarrow> ('a \<Rightarrow> error + 'b) \<Rightarrow> error + 'b" where
  "bindE m f = (case m of Inl e \<Rightarrow> Inl e | Inr x \<Rightarrow> f x)"

text \<open>
  The same for a computation that also changes a state: the state an exception leaves
  behind is kept.
\<close>

definition thenS ::
  "(error + 'a) \<times> 's \<Rightarrow> ('a \<Rightarrow> 's \<Rightarrow> (error + 'b) \<times> 's) \<Rightarrow> (error + 'b) \<times> 's" where
  "thenS rm f = (case rm of (Inl e, m) \<Rightarrow> (Inl e, m) | (Inr x, m) \<Rightarrow> f x m)"

text \<open>\<open>d[k]\<close> on a dictionary held as a map, and on one held as an association list.\<close>

definition getitem :: "('k \<rightharpoonup> 'v) \<Rightarrow> 'k \<Rightarrow> string \<Rightarrow> error + 'v" where
  "getitem d k name = (case d k of None \<Rightarrow> Inl (KeyError name) | Some v \<Rightarrow> Inr v)"

text \<open>\<open>d[k] = v\<close> on an insertion-ordered dictionary held as an association list.\<close>

fun setitem :: "'k \<Rightarrow> 'v \<Rightarrow> ('k \<times> 'v) list \<Rightarrow> ('k \<times> 'v) list" where
  "setitem k v [] = [(k, v)]"
| "setitem k v ((k', v') # d) =
     (if k' = k then (k', v) # d else (k', v') # setitem k v d)"

text \<open>A list comprehension whose element expression may raise.\<close>

fun comprehension :: "('x \<Rightarrow> error + 'y) \<Rightarrow> 'x list \<Rightarrow> error + 'y list" where
  "comprehension f [] = Inr []"
| "comprehension f (x # xs) =
     bindE (f x) (\<lambda>y. bindE (comprehension f xs) (\<lambda>ys. Inr (y # ys)))"

section \<open>The benchmark driver (scripts/benchmark.py)\<close>

subsection \<open>Files, log and calls\<close>

text \<open>
  A path is the list of its components, and \<open>dir / name\<close> appends one. The file system
  maps a path to what is there: a file with its text, or a directory. The world of the
  driver holds the file system, the log records written so far, the weights files handed
  to \<open>torch.load\<close>, and the calls of \<open>editor.evaluate\<close> made so far, each as the layer and
  the key of the subset.
\<close>

type_synonym path = "string list"

datatype node = File string | Dir

datatype level = INFO | WARNING

datatype message =
    Editors_dir_not_specified
  | Weights_not_found path
  | Loading_weights path
  | Skipping_layer int
  | Found_existing string path
  | Found_entries string nat
  | Writing_generations string path
  | Benchmark_complete string
  | Will_look_for "string option" "path option"
  | Loading_model
  | Loading_data_sources

record world =
  fs :: "path \<rightharpoonup> node"
  log :: "(level \<times> message) list"
  loaded :: "path list"
  evaluated :: "(int \<times> string) list"

definition logger :: "level \<Rightarrow> message \<Rightarrow> world \<Rightarrow> world" where
  "logger lvl msg w = w\<lparr>log := log w @ [(lvl, msg)]\<rparr>"

text \<open>\<open>str(layer)\<close>: the decimal digits of an integer, with a minus sign if negative.\<close>

fun str_nat :: "nat \<Rightarrow> string" where
  "str_nat n =
     (if n < 10 then [''0123456789'' ! n]
      else str_nat (n div 10) @ [''0123456789'' ! (n mod 10)])"

definition str_int :: "int \<Rightarrow> string" where
  "str_int i = (if i < 0 then ''-'' @ str_nat (nat (- i)) else str_nat (nat i))"

text \<open>
  \<open>path.parent.mkdir(exist_ok=True, parents=True)\<close>: every prefix of the path becomes a
  directory, unless a file is in the way. \<open>path.open("w")\<close> creates or empties the file,
  unless the path is a directory; the text is written afterwards.
\<close>

definition prefixes_of :: "path \<Rightarrow> path list" where
  "prefixes_of p = map (\<lambda>n. take n p) [1 ..< Suc (length p)]"

definition mkdir_parents :: "path \<Rightarrow> world \<Rightarrow> error + world" where
  "mkdir_parents p w =
     (if list_ex (\<lambda>q. case fs w q of Some (File _) \<Rightarrow> True | _ \<Rightarrow> False) (prefixes_of p)
      then Inl (Raised ''FileExistsError'')
      else Inr (w\<lparr>fs := foldl (\<lambda>f q. f(q \<mapsto> Dir)) (fs w) (prefixes_of p)\<rparr>))"

definition open_w :: "path \<Rightarrow> world \<Rightarrow> error + world" where
  "open_w p w =
     (case fs w p of
        Some Dir \<Rightarrow> Inl (Raised ''IsADirectoryError'')
      | _ \<Rightarrow> Inr (w\<lparr>fs := (fs w)(p \<mapsto> File [])\<rparr>))"

definition write_text :: "path \<Rightarrow> string \<Rightarrow> world \<Rightarrow> world" where
  "write_text p text w = w\<lparr>fs := (fs w)(p \<mapsto> File text)\<rparr>"

subsection \<open>The collaborators of the driver\<close>

text \<open>
  What the driver calls in the modules \<open>editors\<close>, \<open>metrics\<close> and \<open>torch\<close>, taken as
  parameters: the registry \<open>editors.SUPPORTED_EDITORS\<close> (a dictionary from editor type to
  the editor's constructor), \<open>editor.to\<close>, \<open>torch.load\<close> on the text of the weights file,
  \<open>editor.load_state_dict\<close>, \<open>editor.evaluate\<close> on a subset with the generation keyword
  arguments of that subset, the JSON conversions of \<open>EditorEvaluateRun\<close>, and the scoring of
  the three runs of a layer (lines 180-235, which call the \<open>metrics\<close> module), whose result
  is the text of the scores. Constructing an editor and moving it to a device are taken
  to succeed; the others may raise.
\<close>

datatype gen_kwargs = Max_new_tokens int | Max_length int

record ('mt, 'ed, 'dev, 'sd, 's, 'run) collaborators =
  SUPPORTED_EDITORS :: "(string \<times> ('mt \<Rightarrow> int \<Rightarrow> 'ed)) list"
  to_device :: "'ed \<Rightarrow> 'dev option \<Rightarrow> 'ed"
  torch_load :: "string \<Rightarrow> 'dev option \<Rightarrow> error + 'sd"
  load_state_dict :: "'ed \<Rightarrow> 'sd \<Rightarrow> error + 'ed"
  evaluate :: "'ed \<Rightarrow> 's list \<Rightarrow> gen_kwargs \<Rightarrow> error + 'run"
  from_json :: "string \<Rightarrow> error + 'run"
  to_json :: "'run \<Rightarrow> error + string"
  compute_scores :: "(string \<times> 'run) list \<Rightarrow> error + string"

subsection \<open>\<open>load_editor\<close> (lines 19-45)\<close>

definition weights_path :: "path \<Rightarrow> string \<Rightarrow> int \<Rightarrow> path" where
  "weights_path editors_dir editor_type layer =
     editors_dir @ [editor_type, str_int layer, ''weights.pth'']"

definition load_editor ::
  "('mt, 'ed, 'dev, 'sd, 's, 'run) collaborators \<Rightarrow> string \<Rightarrow> 'mt \<Rightarrow> int \<Rightarrow> path option \<Rightarrow>
   'dev option \<Rightarrow> world \<Rightarrow> (error + 'ed option) \<times> world" where
  "load_editor env editor_type mt layer editors_dir device w =
     (case map_of (SUPPORTED_EDITORS env) editor_type of
        None \<Rightarrow> (Inl (KeyError editor_type), w)
      | Some editor_factory \<Rightarrow>
          let editor = to_device env (editor_factory mt layer) device in
          if editor_type \<noteq> ''identity'' then
            (case editors_dir of
               None \<Rightarrow> (Inr None, logger WARNING Editors_dir_not_specified w)
             | Some dir \<Rightarrow>
                 let weights_file = weights_path dir editor_type layer in
                 (case fs w weights_file of
                    None \<Rightarrow> (Inr None, logger WARNING (Weights_not_found weights_file) w)
                  | Some nd \<Rightarrow>
                      let w1 = logger INFO (Loading_weights weights_file) w;
                          w2 = w1\<lparr>loaded := loaded w1 @ [weights_file]\<rparr>
                      in (case nd of
                            Dir \<Rightarrow> (Inl (Raised ''IsADirectoryError''), w2)
                          | File text \<Rightarrow>
                              (case torch_load env text device of
                                 Inl e \<Rightarrow> (Inl e, w2)
                               | Inr state_dict \<Rightarrow>
                                   (case load_state_dict env editor state_dict of
                                      Inl e \<Rightarrow> (Inl e, w2)
                                    | Inr editor' \<Rightarrow> (Inr (Some editor'), w2))))))
          else (Inr (Some editor), w))"

subsection \<open>The loop over the subsets of one layer (lines 147-178)\<close>

definition results_path :: "path \<Rightarrow> int \<Rightarrow> string \<Rightarrow> path" where
  "results_path results_dir layer key = results_dir @ [str_int layer, key @ ''_results.json'']"

text \<open>
  One iteration per \<open>(key, subset, kwargs)\<close>. If the results file exists, it is read and
  parsed, and \<open>continue\<close> goes to the next subset; otherwise the directory is made, the
  editor is evaluated and the run is written. \<open>results\<close> is the dictionary filled so far.
\<close>

fun subsets_loop ::
  "('mt, 'ed, 'dev, 'sd, 's, 'run) collaborators \<Rightarrow> 'ed \<Rightarrow> path \<Rightarrow> int \<Rightarrow>
   (string \<times> 's list \<times> gen_kwargs) list \<Rightarrow> (string \<times> 'run) list \<Rightarrow> world \<Rightarrow>
   (error + (string \<times> 'run) list) \<times> world" where
  "subsets_loop env editor results_dir layer [] results w = (Inr results, w)"
| "subsets_loop env editor results_dir layer ((key, subset', kwargs) # rest) results w =
     (let results_file = results_path results_dir layer key in
      case fs w results_file of
        Some nd \<Rightarrow>
          (let w1 = logger INFO (Found_existing key results_file) w in
           case nd of
             Dir \<Rightarrow> (Inl (Raised ''IsADirectoryError''), w1)
           | File text \<Rightarrow>
               (case from_json env text of
                  Inl e \<Rightarrow> (Inl e, w1)
                | Inr run \<Rightarrow>
                    subsets_loop env editor results_dir layer rest (setitem key run results) w1))
      | None \<Rightarrow>
          (case mkdir_parents (butlast results_file) w of
             Inl e \<Rightarrow> (Inl e, w)
           | Inr w1 \<Rightarrow>
               (let w2 = logger INFO (Found_entries key (length subset')) w1;
                    w3 = w2\<lparr>evaluated := evaluated w2 @ [(layer, key)]\<rparr>
                in case evaluate env editor subset' kwargs of
                     Inl e \<Rightarrow> (Inl e, w3)
                   | Inr generations \<Rightarrow>
                       (let w4 = logger INFO (Writing_generations key results_file) w3 in
                        case open_w results_file w4 of
                          Inl e \<Rightarrow> (Inl e, w4)
                        | Inr w5 \<Rightarrow>
                            (case to_json env generations of
                               Inl e \<Rightarrow> (Inl e, w5)
                             | Inr text \<Rightarrow>
                                 subsets_loop env editor results_dir layer rest
                                   (setitem key generations results)
                                   (write_text results_file text w5))))))"

text \<open>
  The three subsets of the driver, with their keyword arguments: one new token for the
  prompts and the paraphrase prompts, \<open>args.max_length\<close> for the generation prompts.
\<close>

definition subsets ::
  "'s list \<Rightarrow> 's list \<Rightarrow> 's list \<Rightarrow> int \<Rightarrow> (string \<times> 's list \<times> gen_kwargs) list" where
  "subsets prompts paraphrase_prompts generation_prompts max_length =
     [(''prompts'', prompts, Max_new_tokens 1),
      (''paraphrase_prompts'', paraphrase_prompts, Max_new_tokens 1),
      (''generation_prompts'', generation_prompts, Max_length max_length)]"

subsection \<open>The loop over the layers (lines 139-239)\<close>

text \<open>
  A layer without an editor is skipped with a warning. Any exception ends the run; the
  world it leaves behind stays as it is.
\<close>

fun layers_loop ::
  "('mt, 'ed, 'dev, 'sd, 's, 'run) collaborators \<Rightarrow> string \<Rightarrow> 'mt \<Rightarrow> path option \<Rightarrow>
   'dev option \<Rightarrow> path \<Rightarrow> (string \<times> 's list \<times> gen_kwargs) list \<Rightarrow> int list \<Rightarrow> world \<Rightarrow>
   (error + unit) \<times> world" where
  "layers_loop env editor_type mt editors_dir device results_dir subs [] w = (Inr (), w)"
| "layers_loop env editor_type mt editors_dir device results_dir subs (layer # layers) w =
     (case load_editor env editor_type mt layer editors_dir device w of
        (Inl e, w1) \<Rightarrow> (Inl e, w1)
      | (Inr None, w1) \<Rightarrow>
          layers_loop env editor_type mt editors_dir device results_dir subs layers
            (logger WARNING (Skipping_layer layer) w1)
      | (Inr (Some editor), w1) \<Rightarrow>
          (case subsets_loop env editor results_dir layer subs [] w1 of
             (Inl e, w2) \<Rightarrow> (Inl e, w2)
           | (Inr results, w2) \<Rightarrow>
               (case compute_scores env results of
                  Inl e \<Rightarrow> (Inl e, w2)
                | Inr scores \<Rightarrow>
                    (let w3 = logger INFO (Benchmark_complete scores) w2;
                         scores_file = results_dir @ [str_int layer, ''scores.json'']
                     in case open_w scores_file w3 of
                          Inl e \<Rightarrow> (Inl e, w3)
                        | Inr w4 \<Rightarrow>
                            layers_loop env editor_type mt editors_dir device results_dir subs
                              layers (write_text scores_file scores w4)))))"

subsection \<open>\<open>main\<close> before its loop (lines 97-137)\<close>

text \<open>
  What \<open>main\<close> calls before the loop, taken as parameters: the loading of the model, the
  loading of the data with the derivation of the three prompt sets (lines 120-137), the
  names of the entries of a directory (\<open>iterdir\<close>), and Python's \<open>int\<close> on a name. Each
  may raise.
\<close>

record ('mt, 's) startup =
  load_model :: "error + 'mt"
  load_datasets :: "error + 's list \<times> 's list \<times> 's list"
  iterdir :: "path \<Rightarrow> world \<Rightarrow> error + string list"
  py_int :: "string \<Rightarrow> error + int"

text \<open>
  Lines 100-105. \<open>args.editor_type\<close> has no default and no list of choices: it is any
  string, or \<open>None\<close>. Unless it is \<open>"identity"\<close>, the directory
  \<open>Path(editors_dir, editor_type)\<close> must exist; building that path raises \<open>TypeError\<close> if
  either part is \<open>None\<close>. The check returns the editor type for the loop.
\<close>

definition editors_guard ::
  "string option \<Rightarrow> path option \<Rightarrow> world \<Rightarrow> (error + string) \<times> world" where
  "editors_guard editor_type editors_dir w =
     (if editor_type \<noteq> Some ''identity'' then
        (let w1 = logger INFO (Will_look_for editor_type editors_dir) w in
         case editor_type of
           None \<Rightarrow> (Inl (TypeError ''expected str, bytes or os.PathLike object''), w1)
         | Some t \<Rightarrow>
             (case editors_dir of
                None \<Rightarrow> (Inl (TypeError ''expected str, bytes or os.PathLike object''), w1)
              | Some dir \<Rightarrow>
                  if fs w1 (dir @ [t]) = None
                  then (Inl (ValueError ''editors not found''), w1)
                  else (Inr t, w1)))
      else (Inr ''identity'', w))"

text \<open>
  Lines 107-115. Without \<open>args.layers\<close>, the layers are the sorted numbers of the
  directories in \<open>editors_dir\<close>.
\<close>

definition default_layers ::
  "('mt, 's) startup \<Rightarrow> int list option \<Rightarrow> path option \<Rightarrow> world \<Rightarrow> error + int list" where
  "default_layers st layers editors_dir w =
     (case layers of
        Some ls \<Rightarrow> Inr ls
      | None \<Rightarrow>
          (case editors_dir of
             None \<Rightarrow> Inl (AttributeError ''iterdir'')
           | Some dir \<Rightarrow>
               bindE (iterdir st dir w) (\<lambda>names.
               bindE (comprehension (py_int st)
                        (filter (\<lambda>name. fs w (dir @ [name]) = Some Dir) names))
                 (\<lambda>ls. Inr (sort ls)))))"

text \<open>
  \<open>main\<close>, from line 97 on: the check of the editors directory, the layers, the model and
  the data, then the loop over the layers. \<open>results_dir\<close> is \<open>experiment.results_dir\<close>.
\<close>

definition main ::
  "('mt, 'ed, 'dev, 'sd, 's, 'run) collaborators \<Rightarrow> ('mt, 's) startup \<Rightarrow> string option \<Rightarrow>
   path option \<Rightarrow> int list option \<Rightarrow> 'dev option \<Rightarrow> path \<Rightarrow> int \<Rightarrow> world \<Rightarrow>
   (error + unit) \<times> world" where
  "main env st editor_type editors_dir layers device results_dir max_length w =
     thenS (editors_guard editor_type editors_dir w) (\<lambda>t w1.
     thenS (default_layers st layers editors_dir w1, w1) (\<lambda>ls w2.
     thenS (load_model st, logger INFO Loading_model w2) (\<lambda>mt w3.
     thenS (load_datasets st, logger INFO Loading_data_sources w3) (\<lambda>sets w4.
       (case sets of
          (prompts, paraphrase_prompts, generation_prompts) \<Rightarrow>
            layers_loop env t mt editors_dir device results_dir
              (subsets prompts paraphrase_prompts generation_prompts max_length) ls w4)))))"

subsection \<open>A registry of two editor types\<close>

text \<open>
  A registry with the identity editor and one trained editor, for concrete runs. An editor
  is its type, its layer and its weights; the model and the device are trivial.
\<close>

definition example_env ::
  "(unit, string \<times> int \<times> string, unit, string, string, string list) collaborators" where
  "example_env =
     \<lparr>SUPPORTED_EDITORS =
        [(''identity'', \<lambda>mt layer. (''identity'', layer, [])),
         (''linear'', \<lambda>mt layer. (''linear'', layer, []))],
      to_device = (\<lambda>editor device. editor),
      torch_load = (\<lambda>text device. Inr text),
      load_state_dict = (\<lambda>editor state_dict. case editor of (t, l, _) \<Rightarrow> Inr (t, l, state_dict)),
      evaluate = (\<lambda>editor subset' kwargs. Inr subset'),
      from_json = (\<lambda>text. Inr [text]),
      to_json = (\<lambda>run. Inr (concat run)),
      compute_scores = (\<lambda>results. Inr ''scores'')\<rparr>"

definition empty_world :: world where
  "empty_world = \<lparr>fs = Map.empty, log = [], loaded = [], evaluated = []\<rparr>"

text \<open>A world in which the three results files of layer 0 exist.\<close>

definition persisted_world :: world where
  "persisted_world =
     \<lparr>fs = [results_path [''results''] 0 ''prompts'' \<mapsto> File ''a'',
             results_path [''results''] 0 ''paraphrase_prompts'' \<mapsto> File ''b'',
             results_path [''results''] 0 ''generation_prompts'' \<mapsto> File ''c''],
      log = [], loaded = [], evaluated = []\<rparr>"

text \<open>
  A start-up with an empty dataset, and a world in which the editors directory holds a
  directory for the type \<open>linear\<close> and one for the type \<open>bogus\<close>, both without weights.
\<close>

definition example_startup :: "(unit, string) startup" where
  "example_startup =
     \<lparr>load_model = Inr (),
      load_datasets = Inr ([], [], []),
      iterdir = (\<lambda>dir w. Inr []),
      py_int = (\<lambda>name. Inl (ValueError name))\<rparr>"

definition editors_world :: world where
  "editors_world =
     \<lparr>fs = [[''editors''] \<mapsto> Dir, [''editors'', ''linear''] \<mapsto> Dir,
             [''editors'', ''bogus''] \<mapsto> Dir],
      log = [], loaded = [], evaluated = []\<rparr>"

section \<open>The essence benchmark (src/benchmarks.py)\<close>

subsection \<open>The model and its trace\<close>

text \<open>
  The state of the model \<open>editor.mt\<close> is the list of edits in effect on it, the innermost
  first; the unedited model has none. An edit is the editor with the two coefficients and
  the device it was applied with. The trace lists the computations made so far, each with
  the edits that were in effect: the loading of the TF-IDF vectorizer, the forward pass
  over the prompt prefix, a call of \<open>editor.mt.model.generate\<close>, and a call of
  \<open>edited_mt.model.generate\<close>; a generation is recorded with its prompts and its two caps
  \<open>max_new_tokens\<close> and \<open>max_length\<close>.
\<close>

datatype 'h call =
    Load_tfidf_vectorizer
  | Forward "'h list" string
  | Generate "'h list" "string list" "int option" "int option"
  | Generate_edited "'h list" "string list" "int option" "int option"

record 'h model_state =
  hooks :: "'h list"
  calls :: "'h call list"

definition record_call :: "'h call \<Rightarrow> 'h model_state \<Rightarrow> 'h model_state" where
  "record_call c m = m\<lparr>calls := calls m @ [c]\<rparr>"

text \<open>
  Modelled from the spec: \<open>editors.apply\<close>, which is defined in the module \<open>editors\<close> and
  not in the two modules embedded here. The specification (section 4.2) describes it as a
  scope that
  applies the editor's transformation to the model for the duration of a block of work and
  restores the original behaviour of the model afterwards, whether the block completes
  normally, returns early or raises, and that can be nested and repeated. Here: the edit
  is put in front of the edits in effect, the block runs, and the edits that were in
  effect when the scope was opened are put back, whatever the block returned or raised.
\<close>

definition apply_scope ::
  "'h \<Rightarrow> ('h model_state \<Rightarrow> (error + 'a) \<times> 'h model_state) \<Rightarrow> 'h model_state \<Rightarrow>
   (error + 'a) \<times> 'h model_state" where
  "apply_scope h block m =
     (let saved = hooks m;
          (r, m1) = block (m\<lparr>hooks := h # saved\<rparr>)
      in (r, m1\<lparr>hooks := saved\<rparr>))"

subsection \<open>Records of the benchmark\<close>

text \<open>One row of the dataset, with the columns the benchmark reads.\<close>

record 'src row =
  row_id :: string
  row_entity :: string
  row_attribute :: string
  row_context :: string
  row_source :: 'src

record 'sc EssenceSample =
  sample_ident :: string
  generation :: string
  references :: "string list"
  essence_score :: 'sc
  fluency_generation_score :: 'sc
  fluency_references_score :: 'sc

record 'mtr EssenceMetrics =
  essence_metric :: 'mtr
  fluency_generaton :: 'mtr
  fluency_references :: 'mtr

record ('sc, 'mtr) EssenceBenchmarkResults =
  essence_samples :: "'sc EssenceSample list"
  essence_metrics :: "'mtr EssenceMetrics"

text \<open>
  The collaborators of the benchmark, taken as parameters; each may raise unless its type
  says otherwise. \<open>forward\<close> is the tokenizer and the forward pass over the prompt prefix,
  giving the cached keys and values; \<open>expand\<close> expands them to a batch; \<open>format\<close> is
  \<open>prompt_template.format(entity)\<close>; \<open>generate\<close> is generation by the model under the
  edits in effect, for \<open>edited_mt.model.generate\<close> with the batch of rows as well;
  \<open>weighted_n_gram_entropy\<close> takes one text or a list of texts.
\<close>

record ('h, 'src, 'dev, 'kv, 'inp, 'out, 'v, 'sc, 'mtr) essence_env =
  load_tfidf_vectorizer :: "error + 'v"
  forward :: "'h list \<Rightarrow> string \<Rightarrow> 'dev option \<Rightarrow> error + 'kv"
  expand :: "'kv \<Rightarrow> nat \<Rightarrow> 'kv"
  format :: "string \<Rightarrow> string \<Rightarrow> error + string"
  inputs_from_batch :: "string list \<Rightarrow> 'dev option \<Rightarrow> error + 'inp"
  generate ::
    "'h list \<Rightarrow> 'src row list option \<Rightarrow> 'inp \<Rightarrow> 'kv option \<Rightarrow> int option \<Rightarrow> int option \<Rightarrow>
     error + 'out"
  batch_decode :: "'out \<Rightarrow> string list"
  tfidf_similarity :: "string \<Rightarrow> string list \<Rightarrow> 'v \<Rightarrow> error + 'sc"
  weighted_n_gram_entropy :: "string + string list \<Rightarrow> error + 'sc"
  aggregate :: "'sc list \<Rightarrow> error + 'mtr"

text \<open>The keyword arguments of \<open>essence\<close>, besides \<open>editor\<close> and \<open>dataset\<close>.\<close>

record ('c, 'dev, 'v) essence_kwargs =
  alpha :: 'c
  beta :: 'c
  batch_size :: int
  prompt_prefix :: "string option"
  prompt_template :: string
  max_new_tokens :: "int option"
  max_length :: "int option"
  use_references :: "string list list option"
  tfidf_vectorizer :: "'v option"
  desc :: "string option"
  device :: "'dev option"

definition DEFAULT_MAX_LENGTH :: int where
  "DEFAULT_MAX_LENGTH = 100"

subsection \<open>Checking the arguments (lines 90-96)\<close>

text \<open>
  \<open>s.count(sub)\<close> for a non-empty \<open>sub\<close>: the number of occurrences found scanning from
  the left, the scan going on after the end of each occurrence. The messages of the two
  exceptions are abridged to their fixed part.
\<close>

fun str_count :: "string \<Rightarrow> string \<Rightarrow> nat" where
  "str_count [] sub = 0"
| "str_count (c # cs) sub =
     (if sub \<noteq> [] \<and> take (length sub) (c # cs) = sub
      then Suc (str_count (drop (length sub) (c # cs)) sub)
      else str_count cs sub)"

definition validate ::
  "('c, 'dev, 'v) essence_kwargs \<Rightarrow> 'src row list \<Rightarrow> error + unit" where
  "validate kw dataset =
     (if str_count (prompt_template kw) ''{}'' \<noteq> 1
      then Inl (ValueError ''prompt template needs 1 empty slot'')
      else case use_references kw of
             None \<Rightarrow> Inr ()
           | Some refs \<Rightarrow>
               if length refs \<noteq> length dataset
               then Inl (ValueError ''size mismatch'')
               else Inr ())"

subsection \<open>One batch (lines 122-202)\<close>

text \<open>
  The lists the loop appends to: generations, reference groups, essence scores, and the
  fluency scores of the generations and of the references.
\<close>

type_synonym 'sc accumulators =
  "string list \<times> string list list \<times> 'sc list \<times> 'sc list \<times> 'sc list"

text \<open>
  The loop over the samples of a batch (lines 182-202), over
  \<open>zip(ids, entities, attributes, batch_generations, batch_reference_groups)\<close>.
\<close>

fun scores_loop ::
  "('h, 'src, 'dev, 'kv, 'inp, 'out, 'v, 'sc, 'mtr) essence_env \<Rightarrow> 'v \<Rightarrow>
   (string \<times> string \<times> string \<times> string \<times> string list) list \<Rightarrow>
   'sc list \<times> 'sc list \<times> 'sc list \<Rightarrow> error + 'sc list \<times> 'sc list \<times> 'sc list" where
  "scores_loop env vec [] acc = Inr acc"
| "scores_loop env vec ((sid, entity, attribute, gen, refs) # rest) (es, fgs, frs) =
     bindE (tfidf_similarity env gen refs vec) (\<lambda>e.
     bindE (weighted_n_gram_entropy env (Inl gen)) (\<lambda>fg.
     bindE (weighted_n_gram_entropy env (Inr refs)) (\<lambda>fr.
       scores_loop env vec rest (es @ [e], fgs @ [fg], frs @ [fr]))))"

text \<open>
  The body of the loop over the batches. \<open>max_length'\<close> is \<open>max_length\<close> after the default
  of line 99, \<open>vec\<close> the vectorizer, \<open>past_key_values\<close> the cache of the prefix. The
  reference generation runs on \<open>editor.mt\<close> as it is; the edited generation runs inside
  the scope of \<open>editors.apply\<close>.
\<close>

definition essence_batch ::
  "('h, 'src, 'dev, 'kv, 'inp, 'out, 'v, 'sc, 'mtr) essence_env \<Rightarrow> ('c \<Rightarrow> 'c \<Rightarrow> 'dev option \<Rightarrow> 'h) \<Rightarrow>
   ('c, 'dev, 'v) essence_kwargs \<Rightarrow> int option \<Rightarrow> 'v \<Rightarrow> 'kv option \<Rightarrow>
   nat \<times> 'src row list \<Rightarrow> 'sc accumulators \<Rightarrow> 'h model_state \<Rightarrow>
   (error + 'sc accumulators) \<times> 'h model_state" where
  "essence_batch env editor kw max_length' vec past_key_values ib acc m =
     (case (ib, acc) of
        ((batch_index, batch),
         (generations, reference_groups, essence_scores, fluency_generation_scores,
          fluency_references_scores)) \<Rightarrow>
     (let ids = map row_id batch;
          entities = map row_entity batch;
          attributes = map row_attribute batch
      in
      thenS (comprehension (format env (prompt_template kw)) entities, m) (\<lambda>prompts m0.
      (let past_key_values_for_batch =
             map_option (\<lambda>kvs. expand env kvs (length entities)) past_key_values
       in
       thenS (inputs_from_batch env prompts (device kw), m0) (\<lambda>inputs m0.
       thenS
         (case use_references kw of
            None \<Rightarrow>
              (bindE (generate env (hooks m0) None inputs past_key_values_for_batch
                        (max_new_tokens kw) max_length')
                 (\<lambda>outputs. Inr (map (\<lambda>r. [r]) (batch_decode env outputs))),
               record_call (Generate (hooks m0) prompts (max_new_tokens kw) max_length') m0)
          | Some refs \<Rightarrow>
              (Inr (take (length entities) (drop (batch_index * nat (batch_size kw)) refs)),
               m0))
         (\<lambda>batch_reference_groups m1.
       thenS
         (apply_scope (editor (alpha kw) (beta kw) (device kw))
            (\<lambda>edited_mt.
               (generate env (hooks edited_mt) (Some batch) inputs past_key_values_for_batch
                  (max_new_tokens kw) max_length',
                record_call
                  (Generate_edited (hooks edited_mt) prompts (max_new_tokens kw) max_length')
                  edited_mt)) m1)
         (\<lambda>outputs m2.
       (let batch_generations = batch_decode env outputs in
        thenS
          (scores_loop env vec
             (zip ids (zip entities (zip attributes
                (zip batch_generations batch_reference_groups))))
             (essence_scores, fluency_generation_scores, fluency_references_scores), m2)
          (\<lambda>scores m3.
             (case scores of
                (es, fgs, frs) \<Rightarrow>
                  (Inr (generations @ batch_generations,
                        reference_groups @ batch_reference_groups, es, fgs, frs), m3)))))))))))"

subsection \<open>The benchmark (lines 73-236)\<close>

text \<open>
  The data loader cuts the dataset into batches of \<open>batch_size\<close> consecutive rows, the
  last one possibly shorter, and refuses a batch size that is not positive.
\<close>

fun chunks :: "nat \<Rightarrow> 'a list \<Rightarrow> 'a list list" where
  "chunks n [] = []"
| "chunks n (x # xs) =
     (if n = 0 then [] else take n (x # xs) # chunks n (drop n (x # xs)))"

text \<open>\<open>for batch_index, batch in enumerate(loader)\<close>: an exception ends the loop.\<close>

fun batches_loop ::
  "('h, 'src, 'dev, 'kv, 'inp, 'out, 'v, 'sc, 'mtr) essence_env \<Rightarrow> ('c \<Rightarrow> 'c \<Rightarrow> 'dev option \<Rightarrow> 'h) \<Rightarrow>
   ('c, 'dev, 'v) essence_kwargs \<Rightarrow> int option \<Rightarrow> 'v \<Rightarrow> 'kv option \<Rightarrow>
   (nat \<times> 'src row list) list \<Rightarrow> 'sc accumulators \<Rightarrow> 'h model_state \<Rightarrow>
   (error + 'sc accumulators) \<times> 'h model_state" where
  "batches_loop env editor kw max_length' vec past_key_values [] acc m = (Inr acc, m)"
| "batches_loop env editor kw max_length' vec past_key_values (ib # rest) acc m =
     thenS (essence_batch env editor kw max_length' vec past_key_values ib acc m)
       (\<lambda>acc1 m1. batches_loop env editor kw max_length' vec past_key_values rest acc1 m1)"

text \<open>
  Lines 98-236, what \<open>essence\<close> does once its arguments are accepted. \<open>editor\<close> stands for
  the edit that \<open>editors.apply(editor, alpha, beta, device)\<close> puts into effect. \<open>desc\<close> only
  labels the progress bar and has no part in the result.
\<close>

definition essence_run ::
  "('h, 'src, 'dev, 'kv, 'inp, 'out, 'v, 'sc, 'mtr) essence_env \<Rightarrow> ('c \<Rightarrow> 'c \<Rightarrow> 'dev option \<Rightarrow> 'h) \<Rightarrow>
   'src row list \<Rightarrow> ('c, 'dev, 'v) essence_kwargs \<Rightarrow> 'h model_state \<Rightarrow>
   (error + ('sc, 'mtr) EssenceBenchmarkResults) \<times> 'h model_state" where
  "essence_run env editor dataset kw m =
     (let max_length' =
            (if max_length kw = None \<and> max_new_tokens kw = None
             then Some DEFAULT_MAX_LENGTH else max_length kw)
      in
      thenS
        (case tfidf_vectorizer kw of
           None \<Rightarrow> (load_tfidf_vectorizer env, record_call Load_tfidf_vectorizer m)
         | Some v \<Rightarrow> (Inr v, m))
        (\<lambda>vec m1.
      thenS
        (case prompt_prefix kw of
           None \<Rightarrow> (Inr None, m1)
         | Some prefix \<Rightarrow>
             (bindE (forward env (hooks m1) prefix (device kw)) (\<lambda>kvs. Inr (Some kvs)),
              record_call (Forward (hooks m1) prefix) m1))
        (\<lambda>past_key_values m2.
      thenS
        (if batch_size kw \<le> 0
         then (Inl (ValueError ''batch_size should be a positive integer value''), m2)
         else batches_loop env editor kw max_length' vec past_key_values
                (enumerate 0 (chunks (nat (batch_size kw)) dataset)) ([], [], [], [], []) m2)
        (\<lambda>acc m3.
           (case acc of
              (generations, reference_groups, es, fgs, frs) \<Rightarrow>
                (let smpls =
                       map (\<lambda>(r, g, rs, e, fg, fr).
                              \<lparr>sample_ident = row_id r, generation = g, references = rs,
                               essence_score = e, fluency_generation_score = fg,
                               fluency_references_score = fr\<rparr>)
                         (zip dataset
                            (zip generations (zip reference_groups (zip es (zip fgs frs)))))
                 in
                 (bindE (aggregate env es) (\<lambda>me.
                  bindE (aggregate env fgs) (\<lambda>mg.
                  bindE (aggregate env frs) (\<lambda>mr.
                    Inr \<lparr>essence_samples = smpls,
                         essence_metrics =
                           \<lparr>essence_metric = me, fluency_generaton = mg,
                            fluency_references = mr\<rparr>\<rparr>))),
                  m3)))))))"

text \<open>\<open>essence\<close>: the two checks of lines 90-96, then the rest.\<close>

definition essence ::
  "('h, 'src, 'dev, 'kv, 'inp, 'out, 'v, 'sc, 'mtr) essence_env \<Rightarrow> ('c \<Rightarrow> 'c \<Rightarrow> 'dev option \<Rightarrow> 'h) \<Rightarrow>
   'src row list \<Rightarrow> ('c, 'dev, 'v) essence_kwargs \<Rightarrow> 'h model_state \<Rightarrow>
   (error + ('sc, 'mtr) EssenceBenchmarkResults) \<times> 'h model_state" where
  "essence env editor dataset kw m =
     (case validate kw dataset of
        Inl e \<Rightarrow> (Inl e, m)
      | Inr _ \<Rightarrow> essence_run env editor dataset kw m)"

subsection \<open>A model, an editor and a dataset of two rows\<close>

text \<open>
  Collaborators for concrete runs: generation appends a word that tells whether an edit
  was in effect, and with \<open>failing\<close> set the edited generation raises. The scores count
  references and texts.
\<close>

definition example_essence_env ::
  "bool \<Rightarrow> (string, unit, unit, string, string list, string list, unit, nat, nat) essence_env" where
  "example_essence_env failing =
     \<lparr>load_tfidf_vectorizer = Inr (),
      forward = (\<lambda>hs prefix d. Inr prefix),
      expand = (\<lambda>kvs n. kvs),
      format = (\<lambda>template entity. Inr (entity @ '' is'')),
      inputs_from_batch = (\<lambda>prompts d. Inr prompts),
      generate = (\<lambda>hs batch inputs kvs mnt ml.
         if failing \<and> hs \<noteq> [] then Inl (Raised ''generate'')
         else Inr (map (\<lambda>p. p @ (if hs = [] then '' base'' else '' edited'')) inputs)),
      batch_decode = (\<lambda>outputs. outputs),
      tfidf_similarity = (\<lambda>g rs v. Inr (length rs)),
      weighted_n_gram_entropy = (\<lambda>x. Inr (case x of Inl g \<Rightarrow> 1 | Inr rs \<Rightarrow> length rs)),
      aggregate = (\<lambda>xs. Inr (length xs))\<rparr>"

definition example_kwargs :: "(nat, unit, unit) essence_kwargs" where
  "example_kwargs =
     \<lparr>alpha = 1, beta = 1, batch_size = 1, prompt_prefix = None, prompt_template = ''{} is'',
      max_new_tokens = None, max_length = None, use_references = None,
      tfidf_vectorizer = Some (), desc = None, device = None\<rparr>"

definition example_dataset :: "unit row list" where
  "example_dataset =
     [\<lparr>row_id = ''s0'', row_entity = ''Paris'', row_attribute = ''a'', row_context = ''c'',
       row_source = ()\<rparr>,
      \<lparr>row_id = ''s1'', row_entity = ''Rome'', row_attribute = ''a'', row_context = ''c'',
       row_source = ()\<rparr>]"

definition unedited :: "string model_state" where
  "unedited = \<lparr>hooks = [], calls = []\<rparr>"

section \<open>Grouping evaluation results by sample ID (scripts/benchmark.py)\<close>

text \<open>
  An \<open>EditorEvaluateRun\<close> wraps the ordered list \<open>results\<close>; each result carries the
  sample it was computed from, of which \<open>group_by_id\<close> reads only \<open>sample["id"]\<close>.
  Everything else a result holds is the field \<open>body\<close>.
\<close>

record 'a EditorEvaluateResult =
  sample_id :: string
  body :: 'a

record 'a EditorEvaluateRun =
  results :: "'a EditorEvaluateResult list"

text \<open>
  \<open>grouped[k].append(v)\<close> on a \<open>defaultdict(list)\<close>: an existing key keeps its position
  and its list grows at the end; a new key is inserted after all existing keys.
  The dictionary is an association list, since its order is what matters here.
\<close>

fun defaultdict_append :: "'k \<Rightarrow> 'v \<Rightarrow> ('k \<times> 'v list) list \<Rightarrow> ('k \<times> 'v list) list" where
  "defaultdict_append k v [] = [(k, [v])]"
| "defaultdict_append k v ((k', vs) # grouped) =
     (if k' = k then (k', vs @ [v]) # grouped
      else (k', vs) # defaultdict_append k v grouped)"

text \<open>
  The loop \<open>for result in results.results\<close>, then \<open>OrderedDict(grouped)\<close>, which copies the
  items in their insertion order.
\<close>

definition group_by_id ::
  "'a EditorEvaluateRun \<Rightarrow> (string \<times> 'a EditorEvaluateResult list) list" where
  "group_by_id run =
     foldl (\<lambda>grouped result. defaultdict_append (sample_id result) result grouped)
       [] (results run)"

text \<open>
  The order the specification asks for, written from its words: each ID once, at the place
  of its first occurrence.
\<close>

fun first_occurrences :: "'k list \<Rightarrow> 'k list" where
  "first_occurrences [] = []"
| "first_occurrences (k # ks) = k # filter (\<lambda>k'. k' \<noteq> k) (first_occurrences ks)"

section \<open>The classification benchmark (src/benchmarks.py)\<close>

subsection \<open>Records of the benchmark\<close>

text \<open>
  Scores and log-probabilities are Python floats. The records are polymorphic in the
  number type, which only needs its comparison \<open><\<close>: the derived properties below use
  nothing else.
\<close>

record 'a ClassifierOutputs =
  logp_target :: 'a
  logp_comparator :: 'a
  score_target :: 'a
  score_comparator :: 'a

definition label :: "('a::ord) ClassifierOutputs \<Rightarrow> bool" where
  "label c = (logp_target c > logp_comparator c)"

definition prediction :: "('a::ord) ClassifierOutputs \<Rightarrow> bool" where
  "prediction c = (score_target c > score_comparator c)"

definition correct :: "('a::ord) ClassifierOutputs \<Rightarrow> bool" where
  "correct c = (prediction c = label c)"

record 'a ClassificationSample =
  id_sample :: string
  contextual :: "'a ClassifierOutputs"
  decontextual :: "'a ClassifierOutputs"

record 'm ClassifierMetrics =
  f1 :: 'm
  mcc :: 'm
  accuracy :: 'm

record 'm ClassifierResults =
  contextual_metrics :: "'m ClassifierMetrics"
  decontextual_metrics :: "'m ClassifierMetrics"

record ('a, 'm) ClassificationBenchmarkResults =
  samples :: "'a ClassificationSample list"
  editor :: "'m ClassifierResults"
  baseline :: "'m ClassifierResults"

text \<open>
  One result of \<open>editor.classify\<close>, a class of the module \<open>editors\<close>: the benchmark reads \<open>sample["id"]\<close>, \<open>score_mediated\<close> and \<open>score_unmediated\<close> of it.
\<close>

record 'a EditorClassificationResult =
  classified_id :: string
  score_mediated :: 'a
  score_unmediated :: 'a

text \<open>
  The three scikit-learn scorers the benchmark calls, taken as parameters: each gets the
  label sequence and the prediction sequence and returns a number or raises.
\<close>

record 'm scorers =
  accuracy_score :: "bool list \<Rightarrow> bool list \<Rightarrow> error + 'm"
  f1_score :: "bool list \<Rightarrow> bool list \<Rightarrow> error + 'm"
  matthews_corrcoef :: "bool list \<Rightarrow> bool list \<Rightarrow> error + 'm"

subsection \<open>The loop over the two runs (lines 338-347)\<close>

text \<open>
  \<open>for key in ("contextual", "decontextual"): runs[key] = editor.classify(...).results\<close>.
  The state of the loop is the dictionary \<open>runs\<close> and the loop variable \<open>key\<close>, which is
  a local variable of the function and keeps its last value after the loop (\<open>None\<close>: not
  bound yet). \<open>classify\<close> is \<open>editor.classify\<close> as a function of \<open>take_entity_from\<close>, its
  other arguments being the same in both calls.
\<close>

fun runs_loop ::
  "(string \<Rightarrow> error + 'a EditorClassificationResult list) \<Rightarrow> string list \<Rightarrow>
   (string \<rightharpoonup> 'a EditorClassificationResult list) \<times> string option \<Rightarrow>
   error + (string \<rightharpoonup> 'a EditorClassificationResult list) \<times> string option" where
  "runs_loop classify [] (runs, key) = Inr (runs, key)"
| "runs_loop classify (k # ks) (runs, key) =
     bindE (classify (if k = ''contextual'' then ''prompt_in_context'' else ''prompt''))
       (\<lambda>res. runs_loop classify ks (runs(k \<mapsto> res), Some k))"

subsection \<open>Building the samples (lines 349-366)\<close>

text \<open>
  One precomputed row is a dictionary from column name to float. The constructor arguments
  are evaluated in the order written, so the first missing column raises.
\<close>

definition make_sample ::
  "(string \<rightharpoonup> 'a) \<times> 'a EditorClassificationResult \<times> 'a EditorClassificationResult \<Rightarrow>
   error + 'a ClassificationSample" where
  "make_sample x =
     (case x of (pre, rc, rd) \<Rightarrow>
        bindE (getitem pre ''prompt_in_context.target.logp'' ''prompt_in_context.target.logp'')
          (\<lambda>ctl.
        bindE (getitem pre ''prompt_in_context.comparator.logp''
                 ''prompt_in_context.comparator.logp'') (\<lambda>ccl.
        bindE (getitem pre ''prompt.target.logp'' ''prompt.target.logp'') (\<lambda>dtl.
        bindE (getitem pre ''prompt.comparator.logp'' ''prompt.comparator.logp'') (\<lambda>dcl.
          Inr \<lparr>id_sample = classified_id rc,
               contextual =
                 \<lparr>logp_target = ctl, logp_comparator = ccl,
                  score_target = score_mediated rc,
                  score_comparator = score_unmediated rc\<rparr>,
               decontextual =
                 \<lparr>logp_target = dtl, logp_comparator = dcl,
                  score_target = score_unmediated rd,
                  score_comparator = score_mediated rd\<rparr>\<rparr>)))))"

text \<open>
  \<open>for pre, rc, rd in zip(precomputed, runs["contextual"], runs["decontextual"])\<close>, with
  \<open>samples.append(sample)\<close>. \<open>zip\<close> stops at the shortest of its arguments.
\<close>

fun samples_loop ::
  "((string \<rightharpoonup> 'a) \<times> 'a EditorClassificationResult \<times> 'a EditorClassificationResult) list \<Rightarrow>
   'a ClassificationSample list \<Rightarrow> error + 'a ClassificationSample list" where
  "samples_loop [] acc = Inr acc"
| "samples_loop (x # xs) acc =
     bindE (make_sample x) (\<lambda>sample. samples_loop xs (acc @ [sample]))"

subsection \<open>Scoring (lines 368-396)\<close>

text \<open>\<open>getattr(sample, key)\<close> for the name held by the local variable \<open>key\<close>.\<close>

definition getattr_sample ::
  "'a ClassificationSample \<Rightarrow> string option \<Rightarrow> error + 'a ClassifierOutputs" where
  "getattr_sample sample key =
     (case key of
        None \<Rightarrow> Inl (NameError ''key'')
      | Some k \<Rightarrow>
          if k = ''contextual'' then Inr (contextual sample)
          else if k = ''decontextual'' then Inr (decontextual sample)
          else Inl (AttributeError k))"

text \<open>
  \<open>majority = sum(y_true) >= len(y_true) / 2\<close>: the number of true labels against half the
  length, in true division.
\<close>

definition majority :: "bool list \<Rightarrow> bool" where
  "majority y_true = (2 * length (filter (\<lambda>b. b) y_true) \<ge> length y_true)"

text \<open>
  The two comprehensions at the head of the inner loop's body,
  \<open>[getattr(sample, key).label for sample in samples]\<close> and
  \<open>[getattr(sample, key).prediction for sample in samples]\<close>. They read the variable
  \<open>key\<close> of the enclosing function.
\<close>

definition gather_labels ::
  "string option \<Rightarrow> ('a::ord) ClassificationSample list \<Rightarrow> error + bool list" where
  "gather_labels key smpls =
     comprehension (\<lambda>s. bindE (getattr_sample s key) (\<lambda>c. Inr (label c))) smpls"

definition gather_predictions ::
  "string option \<Rightarrow> ('a::ord) ClassificationSample list \<Rightarrow> error + bool list" where
  "gather_predictions key smpls =
     comprehension (\<lambda>s. bindE (getattr_sample s key) (\<lambda>c. Inr (prediction c))) smpls"

text \<open>The three scorer calls, in the order of the source, and the record built of them.\<close>

definition score ::
  "'m scorers \<Rightarrow> bool list \<Rightarrow> bool list \<Rightarrow> error + 'm ClassifierMetrics" where
  "score sk y_true y_pred =
     bindE (accuracy_score sk y_true y_pred) (\<lambda>a.
     bindE (f1_score sk y_true y_pred) (\<lambda>f.
     bindE (matthews_corrcoef sk y_true y_pred) (\<lambda>m.
       Inr \<lparr>f1 = f, mcc = m, accuracy = a\<rparr>)))"

text \<open>The body of the inner loop, for one \<open>method\<close> and one \<open>task\<close>.\<close>

definition task_metrics ::
  "'m scorers \<Rightarrow> string option \<Rightarrow> ('a::ord) ClassificationSample list \<Rightarrow> string \<Rightarrow> string \<Rightarrow>
   error + 'm ClassifierMetrics" where
  "task_metrics sk key smpls method task =
     bindE (gather_labels key smpls) (\<lambda>y_true0.
     bindE (gather_predictions key smpls) (\<lambda>y_pred0.
       let y_pred1 = (if method = ''baseline''
                      then replicate (length y_true0) (majority y_true0) else y_pred0);
           y_true = (if task = ''contextual'' then map Not y_true0 else y_true0);
           y_pred = (if task = ''contextual'' then map Not y_pred1 else y_pred1)
       in score sk y_true y_pred))"

text \<open>
  \<open>for task in ("contextual", "decontextual")\<close>, filling
  \<open>benchmark_results_kwargs[method]\<close>, and \<open>for method in ("editor", "baseline")\<close> around it.
  The dictionaries are association lists in insertion order.
\<close>

fun tasks_loop ::
  "'m scorers \<Rightarrow> string option \<Rightarrow> ('a::ord) ClassificationSample list \<Rightarrow> string \<Rightarrow>
   string list \<Rightarrow> (string \<times> 'm ClassifierMetrics) list \<Rightarrow>
   error + (string \<times> 'm ClassifierMetrics) list" where
  "tasks_loop sk key smpls method [] d = Inr d"
| "tasks_loop sk key smpls method (task # tasks) d =
     bindE (task_metrics sk key smpls method task)
       (\<lambda>cm. tasks_loop sk key smpls method tasks (setitem task cm d))"

fun methods_loop ::
  "'m scorers \<Rightarrow> string option \<Rightarrow> ('a::ord) ClassificationSample list \<Rightarrow>
   string list \<Rightarrow> (string \<times> (string \<times> 'm ClassifierMetrics) list) list \<Rightarrow>
   error + (string \<times> (string \<times> 'm ClassifierMetrics) list) list" where
  "methods_loop sk key smpls [] kw = Inr kw"
| "methods_loop sk key smpls (method # methods) kw =
     bindE (tasks_loop sk key smpls method [''contextual'', ''decontextual'']
              (case map_of kw method of None \<Rightarrow> [] | Some d \<Rightarrow> d))
       (\<lambda>d. methods_loop sk key smpls methods (setitem method d kw))"

text \<open>
  \<open>ClassifierResults(**kwargs)\<close>: the keyword arguments must be exactly the two fields.
\<close>

definition ClassifierResults_kwargs ::
  "(string \<times> 'm ClassifierMetrics) list \<Rightarrow> error + 'm ClassifierResults" where
  "ClassifierResults_kwargs d =
     (case (map_of d ''contextual'', map_of d ''decontextual'') of
        (Some c, Some dc) \<Rightarrow>
          if set (map fst d) = {''contextual'', ''decontextual''}
          then Inr \<lparr>contextual_metrics = c, decontextual_metrics = dc\<rparr>
          else Inl (TypeError ''unexpected keyword argument'')
      | _ \<Rightarrow> Inl (TypeError ''missing keyword argument''))"

text \<open>
  \<open>ClassificationBenchmarkResults(samples=samples, **benchmark_results_kwargs)\<close>, after the
  dictionary comprehension that turns each inner dictionary into a \<open>ClassifierResults\<close>.
\<close>

definition ClassificationBenchmarkResults_kwargs ::
  "'a ClassificationSample list \<Rightarrow> (string \<times> 'm ClassifierResults) list \<Rightarrow>
   error + ('a, 'm) ClassificationBenchmarkResults" where
  "ClassificationBenchmarkResults_kwargs smpls kw =
     (case (map_of kw ''editor'', map_of kw ''baseline'') of
        (Some e, Some b) \<Rightarrow>
          if set (map fst kw) = {''editor'', ''baseline''}
          then Inr \<lparr>samples = smpls, editor = e, baseline = b\<rparr>
          else Inl (TypeError ''unexpected keyword argument'')
      | _ \<Rightarrow> Inl (TypeError ''missing keyword argument''))"

text \<open>
  The benchmark. \<open>precomputed\<close> is what \<open>precompute.classification_inputs_from_dataset\<close>
  returned or raised.
\<close>

definition classification ::
  "'m scorers \<Rightarrow> error + (string \<rightharpoonup> 'a) list \<Rightarrow>
   (string \<Rightarrow> error + ('a::ord) EditorClassificationResult list) \<Rightarrow>
   error + ('a, 'm) ClassificationBenchmarkResults" where
  "classification sk precomputed classify =
     bindE precomputed (\<lambda>pre.
     bindE (runs_loop classify [''contextual'', ''decontextual''] (Map.empty, None))
       (\<lambda>(runs, key).
     bindE (getitem runs ''contextual'' ''contextual'') (\<lambda>rc.
     bindE (getitem runs ''decontextual'' ''decontextual'') (\<lambda>rd.
     bindE (samples_loop (zip pre (zip rc rd)) []) (\<lambda>smpls.
     bindE (methods_loop sk key smpls [''editor'', ''baseline''] []) (\<lambda>kw.
     bindE (comprehension
              (\<lambda>(k, d). bindE (ClassifierResults_kwargs d) (\<lambda>r. Inr (k, r))) kw)
       (\<lambda>kw'. ClassificationBenchmarkResults_kwargs smpls kw')))))))"

subsection \<open>The scorers of scikit-learn\<close>

text \<open>
  Modelled from the spec: \<open>accuracy_score\<close>, \<open>f1_score\<close> and \<open>matthews_corrcoef\<close> belong to
  scikit-learn. The specification calls them the standard statistics
  (F1, Matthews correlation, accuracy) over boolean label and prediction sequences, with a
  defined value in the degenerate cases; they are written here from the confusion counts,
  over the reals: accuracy is the fraction of positions where label and prediction agree,
  F1 is \<open>2 TP / (2 TP + FP + FN)\<close>, and the Matthews coefficient is
  \<open>(TP TN - FP FN) / sqrt ((TP + FP) (TP + FN) (TN + FP) (TN + FN))\<close>; F1 and the Matthews
  coefficient are 0 where their denominator is 0. Sequences of different lengths are
  rejected, and so is the empty input, on which the fraction is not a number.
\<close>

definition count_pairs :: "bool \<Rightarrow> bool \<Rightarrow> bool list \<Rightarrow> bool list \<Rightarrow> nat" where
  "count_pairs t p y_true y_pred = length (filter (\<lambda>yp. yp = (t, p)) (zip y_true y_pred))"

definition checked ::
  "(bool list \<Rightarrow> bool list \<Rightarrow> real) \<Rightarrow> bool list \<Rightarrow> bool list \<Rightarrow> error + real" where
  "checked stat y_true y_pred =
     (if length y_true \<noteq> length y_pred
      then Inl (ValueError ''inconsistent numbers of samples'')
      else if y_true = [] then Inl (ValueError ''empty input'')
      else Inr (stat y_true y_pred))"

definition accuracy_value :: "bool list \<Rightarrow> bool list \<Rightarrow> real" where
  "accuracy_value y_true y_pred =
     real (count_pairs True True y_true y_pred + count_pairs False False y_true y_pred)
       / real (length y_true)"

definition f1_value :: "bool list \<Rightarrow> bool list \<Rightarrow> real" where
  "f1_value y_true y_pred =
     (let tp = real (count_pairs True True y_true y_pred);
          fp = real (count_pairs False True y_true y_pred);
          fn = real (count_pairs True False y_true y_pred)
      in if 2 * tp + fp + fn = 0 then 0 else 2 * tp / (2 * tp + fp + fn))"

definition mcc_value :: "bool list \<Rightarrow> bool list \<Rightarrow> real" where
  "mcc_value y_true y_pred =
     (let tp = real (count_pairs True True y_true y_pred);
          tn = real (count_pairs False False y_true y_pred);
          fp = real (count_pairs False True y_true y_pred);
          fn = real (count_pairs True False y_true y_pred);
          d = (tp + fp) * (tp + fn) * (tn + fp) * (tn + fn)
      in if d = 0 then 0 else (tp * tn - fp * fn) / sqrt d)"

definition sklearn :: "real scorers" where
  "sklearn =
     \<lparr>accuracy_score = checked accuracy_value,
      f1_score = checked f1_value,
      matthews_corrcoef = checked mcc_value\<rparr>"

subsection \<open>A dataset of one sample\<close>

text \<open>
  One sample on which the contextual and the decontextual classifier outputs differ: the
  baseline model prefers the target in both settings (both labels true), and the editor
  scores the mediated target above the unmediated one in both runs, so the contextual
  prediction is true and the decontextual prediction is false.
\<close>

definition example_precomputed :: "(string \<rightharpoonup> int) list" where
  "example_precomputed =
     [[''prompt_in_context.target.logp'' \<mapsto> 1, ''prompt_in_context.comparator.logp'' \<mapsto> 0,
       ''prompt.target.logp'' \<mapsto> 1, ''prompt.comparator.logp'' \<mapsto> 0]]"

definition example_classify :: "string \<Rightarrow> error + int EditorClassificationResult list" where
  "example_classify take_entity_from =
     Inr [\<lparr>classified_id = ''s0'', score_mediated = 1, score_unmediated = 0\<rparr>]"

definition example_samples :: "int ClassificationSample list" where
  "example_samples =
     [\<lparr>id_sample = ''s0'',
       contextual = \<lparr>logp_target = 1, logp_comparator = 0,
                     score_target = 1, score_comparator = 0\<rparr>,
       decontextual = \<lparr>logp_target = 1, logp_comparator = 0,
                       score_target = 0, score_comparator = 1\<rparr>\<rparr>]"

section \<open>Sequencing of computations that may raise\<close>


lemma bindE_simps [simp]:
  "bindE (Inl e) f = Inl e" "bindE (Inr x) f = f x"
  by (simp_all add: bindE_def)

lemma bindE_Inr_iff: "bindE m f = Inr y \<longleftrightarrow> (\<exists>x. m = Inr x \<and> f x = Inr y)"
  by (cases m) simp_all

lemma thenS_simps [simp]:
  "thenS (Inl e, m) f = (Inl e, m)" "thenS (Inr x, m) f = f x m"
  by (simp_all add: thenS_def)

lemma thenS_cases [consumes 1, case_names raised returned]:
  assumes "thenS rm f = (r, m')"
  obtains (raised) e where "rm = (Inl e, m')" "r = Inl e"
  | (returned) x m1 where "rm = (Inr x, m1)" "f x m1 = (r, m')"
  using assms by (cases rm; cases "fst rm") (auto simp: thenS_def)

section \<open>Properties of the benchmark driver\<close>

lemma logger_fields [simp]:
  "fs (logger lvl msg w) = fs w"
  "log (logger lvl msg w) = log w @ [(lvl, msg)]"
  "loaded (logger lvl msg w) = loaded w"
  "evaluated (logger lvl msg w) = evaluated w"
  by (simp_all add: logger_def)

lemma write_text_fields [simp]:
  "fs (write_text p text w) = (fs w)(p \<mapsto> File text)"
  "log (write_text p text w) = log w"
  "loaded (write_text p text w) = loaded w"
  "evaluated (write_text p text w) = evaluated w"
  by (simp_all add: write_text_def)

lemma open_w_InrD:
  assumes "open_w p w = Inr w'"
  shows "fs w' = (fs w)(p \<mapsto> File [])" and "log w' = log w" and "loaded w' = loaded w"
    and "evaluated w' = evaluated w" and "fs w p \<noteq> Some Dir"
  using assms by (auto simp: open_w_def split: option.splits node.splits)

lemma foldl_mkdir:
  "foldl (\<lambda>f q. f(q \<mapsto> Dir)) f0 qs p = (if p \<in> set qs then Some Dir else f0 p)"
  by (induction qs arbitrary: f0) auto

lemma mkdir_parents_InrD:
  assumes "mkdir_parents p w = Inr w'"
  shows "fs w' q = (if q \<in> set (prefixes_of p) then Some Dir else fs w q)"
    and "log w' = log w" and "loaded w' = loaded w" and "evaluated w' = evaluated w"
    and "q \<in> set (prefixes_of p) \<Longrightarrow> fs w q = None \<or> fs w q = Some Dir"
proof -
  from assms have
    no_file: "\<not> list_ex (\<lambda>q. case fs w q of Some (File _) \<Rightarrow> True | _ \<Rightarrow> False) (prefixes_of p)"
    and w': "w' = w\<lparr>fs := foldl (\<lambda>f q. f(q \<mapsto> Dir)) (fs w) (prefixes_of p)\<rparr>"
    by (auto simp: mkdir_parents_def split: if_splits)
  show "fs w' q = (if q \<in> set (prefixes_of p) then Some Dir else fs w q)"
    by (simp add: w' foldl_mkdir)
  show "log w' = log w" "loaded w' = loaded w" "evaluated w' = evaluated w"
    by (simp_all add: w')
  show "fs w q = None \<or> fs w q = Some Dir" if q: "q \<in> set (prefixes_of p)"
  proof (cases "fs w q")
    case None
    then show ?thesis by simp
  next
    case (Some nd)
    show ?thesis
    proof (cases nd)
      case (File t)
      with Some q no_file show ?thesis
        by (force simp: list_ex_iff)
    next
      case Dir
      with Some show ?thesis by simp
    qed
  qed
qed

lemma mkdir_parents_keeps:
  assumes "mkdir_parents p w = Inr w'"
  shows "fs w q = Some (File t) \<Longrightarrow> fs w' q = Some (File t)"
    and "fs w q \<noteq> None \<Longrightarrow> fs w' q \<noteq> None"
    and "fs w' q = Some (File t) \<Longrightarrow> fs w q = Some (File t)"
  using mkdir_parents_InrD(1,5) [OF assms, of q]
  by (auto split: if_splits)


lemma setitem_lookup:
  "map_of (setitem k v d) k' = (if k' = k then Some v else map_of d k')"
  by (induction d) auto

lemma results_path_not_parent:
  "results_path rd layer key \<notin> set (prefixes_of (butlast (results_path rd layer key')))"
proof
  assume "results_path rd layer key \<in> set (prefixes_of (butlast (results_path rd layer key')))"
  then have "length (results_path rd layer key) \<le> length (butlast (results_path rd layer key'))"
    by (auto simp: prefixes_of_def)
  then show False
    by (simp add: results_path_def)
qed

text \<open>One iteration, by the state of the results file.\<close>

lemma subsets_loop_persisted:
  assumes "fs w (results_path rd layer key) = Some (File text)"
  shows "subsets_loop env ed rd layer ((key, s, kw) # rest) res w =
     (case from_json env text of
        Inl e \<Rightarrow> (Inl e, logger INFO (Found_existing key (results_path rd layer key)) w)
      | Inr run \<Rightarrow>
          subsets_loop env ed rd layer rest (setitem key run res)
            (logger INFO (Found_existing key (results_path rd layer key)) w))"
  using assms by (simp add: Let_def)

lemma subsets_loop_directory:
  assumes "fs w (results_path rd layer key) = Some Dir"
  shows "subsets_loop env ed rd layer ((key, s, kw) # rest) res w =
     (Inl (Raised ''IsADirectoryError''),
      logger INFO (Found_existing key (results_path rd layer key)) w)"
  using assms by (simp add: Let_def)

lemma subsets_loop_fresh [consumes 2, case_names early failed continued]:
  assumes "fs w (results_path rd layer key) = None"
    and "subsets_loop env ed rd layer ((key, s, kw) # rest) res w = (r, w')"
  obtains
    (early) e where "r = Inl e" "evaluated w' = evaluated w" "loaded w' = loaded w"
      "fs w' = fs w"
  | (failed) e w1 where "mkdir_parents (butlast (results_path rd layer key)) w = Inr w1"
      "r = Inl e" "evaluated w' = evaluated w @ [(layer, key)]" "loaded w' = loaded w"
      "\<And>q. q \<noteq> results_path rd layer key \<Longrightarrow> fs w' q = fs w1 q"
  | (continued) w1 run js w2 where
      "mkdir_parents (butlast (results_path rd layer key)) w = Inr w1"
      "evaluate env ed s kw = Inr run" "to_json env run = Inr js"
      "fs w2 = (fs w1)(results_path rd layer key \<mapsto> File js)"
      "evaluated w2 = evaluated w @ [(layer, key)]" "loaded w2 = loaded w"
      "subsets_loop env ed rd layer rest (setitem key run res) w2 = (r, w')"
proof (cases "mkdir_parents (butlast (results_path rd layer key)) w")
  case (Inl e)
  with assms early show ?thesis by (auto simp: Let_def)
next
  case (Inr w1)
  note mk = mkdir_parents_InrD(2-4) [OF Inr]
  show ?thesis
  proof (cases "evaluate env ed s kw")
    case (Inl e)
    with assms Inr mk failed [of w1 e] show ?thesis by (auto simp: Let_def)
  next
    case run: (Inr run)
    let ?w4 = "logger INFO (Writing_generations key (results_path rd layer key))
      ((logger INFO (Found_entries key (length s)) w1)
         \<lparr>evaluated := evaluated (logger INFO (Found_entries key (length s)) w1) @ [(layer, key)]\<rparr>)"
    show ?thesis
    proof (cases "open_w (results_path rd layer key) ?w4")
      case (Inl e)
      with assms Inr run mk failed [of w1 e] show ?thesis by (auto simp: Let_def)
    next
      case w5: (Inr w5)
      note op = open_w_InrD(1-4) [OF w5]
      show ?thesis
      proof (cases "to_json env run")
        case (Inl e)
        with assms Inr run w5 have "r = Inl e" "w' = w5"
          by (auto simp: Let_def)
        with mk op failed [of w1 e] Inr show ?thesis by auto
      next
        case js: (Inr js)
        from assms Inr run w5 js
        have "subsets_loop env ed rd layer rest (setitem key run res)
                (write_text (results_path rd layer key) js w5) = (r, w')"
          by (simp add: Let_def)
        moreover have "fs (write_text (results_path rd layer key) js w5) =
            (fs w1)(results_path rd layer key \<mapsto> File js)"
          by (simp add: op)
        moreover have "evaluated (write_text (results_path rd layer key) js w5) =
            evaluated w @ [(layer, key)]"
          by (simp add: op mk)
        moreover have "loaded (write_text (results_path rd layer key) js w5) = loaded w"
          by (simp add: op mk)
        ultimately show ?thesis
          using Inr run js continued by blast
      qed
    qed
  qed
qed

lemma subsets_loop_existing [consumes 2, case_names directory unparsed parsed]:
  assumes "fs w (results_path rd layer key) = Some nd"
    and "subsets_loop env ed rd layer ((key, s, kw) # rest) res w = (r, w')"
  obtains
    (directory) "nd = Dir" "r = Inl (Raised ''IsADirectoryError'')"
      "w' = logger INFO (Found_existing key (results_path rd layer key)) w"
  | (unparsed) js e where "nd = File js" "from_json env js = Inl e" "r = Inl e"
      "w' = logger INFO (Found_existing key (results_path rd layer key)) w"
  | (parsed) js run where "nd = File js" "from_json env js = Inr run"
      "subsets_loop env ed rd layer rest (setitem key run res)
         (logger INFO (Found_existing key (results_path rd layer key)) w) = (r, w')"
  using assms
  by (cases nd; cases "from_json env (case nd of File js \<Rightarrow> js | Dir \<Rightarrow> [])")
     (auto simp: Let_def)

lemma subsets_loop_keeps_files:
  assumes "subsets_loop env ed rd layer subs res w = (r, w')" and "fs w q = Some (File t)"
  shows "fs w' q = Some (File t)"
  using assms
proof (induction subs arbitrary: res w)
  case Nil
  then show ?case by simp
next
  case (Cons x subs)
  obtain key s kw where x: "x = (key, s, kw)"
    by (cases x) auto
  let ?p = "results_path rd layer key"
  note run = Cons.prems(1) [unfolded x]
  show ?case
  proof (cases "fs w ?p")
    case None
    with Cons.prems(2) have neq: "q \<noteq> ?p" by auto
    from None run show ?thesis
    proof (cases rule: subsets_loop_fresh)
      case (early e)
      with Cons.prems(2) show ?thesis by simp
    next
      case (failed e w1)
      with mkdir_parents_keeps(1) [of "butlast ?p" w w1 q t] Cons.prems(2) neq
      show ?thesis by simp
    next
      case (continued w1 run js w2)
      with mkdir_parents_keeps(1) [of "butlast ?p" w w1 q t] Cons.prems(2) neq
      have "fs w2 q = Some (File t)" by simp
      with continued(7) show ?thesis by (rule Cons.IH)
    qed
  next
    case (Some nd)
    from Some run show ?thesis
    proof (cases rule: subsets_loop_existing)
      case directory
      with Cons.prems(2) show ?thesis by simp
    next
      case (unparsed js e)
      with Cons.prems(2) show ?thesis by simp
    next
      case (parsed js run)
      from parsed(3) show ?thesis
        by (rule Cons.IH) (simp add: Cons.prems(2))
    qed
  qed
qed

lemma subsets_loop_keeps_nodes:
  assumes "subsets_loop env ed rd layer subs res w = (r, w')" and "fs w q \<noteq> None"
  shows "fs w' q \<noteq> None"
  using assms
proof (induction subs arbitrary: res w)
  case Nil
  then show ?case by simp
next
  case (Cons x subs)
  obtain key s kw where x: "x = (key, s, kw)"
    by (cases x) auto
  let ?p = "results_path rd layer key"
  note run = Cons.prems(1) [unfolded x]
  show ?case
  proof (cases "fs w ?p")
    case None
    with Cons.prems(2) have neq: "q \<noteq> ?p" by auto
    from None run show ?thesis
    proof (cases rule: subsets_loop_fresh)
      case (early e)
      with Cons.prems(2) show ?thesis by simp
    next
      case (failed e w1)
      with mkdir_parents_keeps(2) [of "butlast ?p" w w1 q] Cons.prems(2) neq
      show ?thesis by simp
    next
      case (continued w1 run js w2)
      with mkdir_parents_keeps(2) [of "butlast ?p" w w1 q] Cons.prems(2) neq
      have "fs w2 q \<noteq> None" by simp
      with continued(7) show ?thesis by (rule Cons.IH)
    qed
  next
    case (Some nd)
    from Some run show ?thesis
    proof (cases rule: subsets_loop_existing)
      case directory
      with Cons.prems(2) show ?thesis by simp
    next
      case (unparsed js e)
      with Cons.prems(2) show ?thesis by simp
    next
      case (parsed js run)
      from parsed(3) show ?thesis
        by (rule Cons.IH) (simp add: Cons.prems(2))
    qed
  qed
qed

lemma subsets_loop_loaded:
  assumes "subsets_loop env ed rd layer subs res w = (r, w')"
  shows "loaded w' = loaded w"
  using assms
proof (induction subs arbitrary: res w)
  case Nil
  then show ?case by simp
next
  case (Cons x subs)
  obtain key s kw where x: "x = (key, s, kw)"
    by (cases x) auto
  let ?p = "results_path rd layer key"
  note run = Cons.prems(1) [unfolded x]
  show ?case
  proof (cases "fs w ?p")
    case None
    from None run show ?thesis
    proof (cases rule: subsets_loop_fresh)
      case (continued w1 run js w2)
      with Cons.IH [OF continued(7)] show ?thesis by simp
    qed simp_all
  next
    case (Some nd)
    from Some run show ?thesis
    proof (cases rule: subsets_loop_existing)
      case (parsed js run)
      with Cons.IH [OF parsed(3)] show ?thesis by simp
    qed simp_all
  qed
qed

lemma subsets_loop_calls:
  assumes "subsets_loop env ed rd layer subs res w = (r, w')"
  shows "\<exists>cs. evaluated w' = evaluated w @ cs \<and>
           (\<forall>c \<in> set cs. \<exists>key. c = (layer, key) \<and> key \<in> fst ` set subs \<and>
              fs w (results_path rd layer key) = None)"
  using assms
proof (induction subs arbitrary: res w)
  case Nil
  then show ?case by simp
next
  case (Cons x subs)
  obtain key s kw where x: "x = (key, s, kw)"
    by (cases x) auto
  let ?p = "results_path rd layer key"
  note run = Cons.prems(1) [unfolded x]
  show ?case
  proof (cases "fs w ?p")
    case None
    from None run show ?thesis
    proof (cases rule: subsets_loop_fresh)
      case (early e)
      then show ?thesis by simp
    next
      case (failed e w1)
      with None x show ?thesis by simp
    next
      case (continued w1 run js w2)
      from Cons.IH [OF continued(7)] obtain cs where
        cs: "evaluated w' = evaluated w2 @ cs"
          "\<forall>c \<in> set cs. \<exists>key. c = (layer, key) \<and> key \<in> fst ` set subs \<and>
              fs w2 (results_path rd layer key) = None"
        by blast
      have absent: "fs w p = None" if "fs w2 p = None" for p
      proof (rule ccontr)
        assume "fs w p \<noteq> None"
        then have "fs w1 p \<noteq> None"
          by (rule mkdir_parents_keeps(2) [OF continued(1)])
        with that continued(4) show False
          by (auto split: if_splits)
      qed
      have "evaluated w' = evaluated w @ ((layer, key) # cs)"
        using cs(1) continued(5) by simp
      moreover have "\<forall>c \<in> set ((layer, key) # cs). \<exists>k. c = (layer, k) \<and>
          k \<in> fst ` set (x # subs) \<and> fs w (results_path rd layer k) = None"
      proof
        fix c assume "c \<in> set ((layer, key) # cs)"
        then consider "c = (layer, key)" | "c \<in> set cs" by auto
        then show "\<exists>k. c = (layer, k) \<and> k \<in> fst ` set (x # subs) \<and>
            fs w (results_path rd layer k) = None"
        proof cases
          case 1
          with None x show ?thesis by simp
        next
          case 2
          with cs(2) obtain k where "c = (layer, k)" "k \<in> fst ` set subs"
            "fs w2 (results_path rd layer k) = None"
            by blast
          with absent show ?thesis by auto
        qed
      qed
      ultimately show ?thesis by blast
    qed
  next
    case (Some nd)
    from Some run show ?thesis
    proof (cases rule: subsets_loop_existing)
      case directory
      then show ?thesis by simp
    next
      case (unparsed js e)
      then show ?thesis by simp
    next
      case (parsed js run)
      from Cons.IH [OF parsed(3)] obtain cs where
        cs: "evaluated w' = evaluated w @ cs"
          "\<forall>c \<in> set cs. \<exists>key. c = (layer, key) \<and> key \<in> fst ` set subs \<and>
              fs w (results_path rd layer key) = None"
        unfolding logger_fields by blast
      have grow: "k \<in> fst ` set (x # subs)" if "k \<in> fst ` set subs" for k
        using that by auto
      from cs(2) have "\<forall>c \<in> set cs. \<exists>k. c = (layer, k) \<and>
          k \<in> fst ` set (x # subs) \<and> fs w (results_path rd layer k) = None"
        using grow by blast
      with cs(1) show ?thesis by blast
    qed
  qed
qed


lemma subsets_loop_other_keys:
  assumes "subsets_loop env ed rd layer subs res w = (Inr res', w')"
    and "key \<notin> fst ` set subs"
  shows "map_of res' key = map_of res key"
  using assms
proof (induction subs arbitrary: res w)
  case Nil
  then show ?case by simp
next
  case (Cons x subs)
  obtain k s kw where x: "x = (k, s, kw)"
    by (cases x) auto
  with Cons.prems(2) have neq: "key \<noteq> k" and rest: "key \<notin> fst ` set subs"
    by auto
  note run = Cons.prems(1) [unfolded x]
  show ?case
  proof (cases "fs w (results_path rd layer k)")
    case None
    from None run show ?thesis
    proof (cases rule: subsets_loop_fresh)
      case (continued w1 run js w2)
      from Cons.IH [OF continued(7) rest] neq show ?thesis
        by (simp add: setitem_lookup)
    qed simp_all
  next
    case (Some nd)
    from Some run show ?thesis
    proof (cases rule: subsets_loop_existing)
      case (parsed js run)
      from Cons.IH [OF parsed(3) rest] neq show ?thesis
        by (simp add: setitem_lookup)
    qed simp_all
  qed
qed

lemma results_path_inject [simp]:
  "results_path rd layer key = results_path rd layer key' \<longleftrightarrow> key = key'"
  by (simp add: results_path_def)

lemma subsets_loop_deserialized:
  assumes "subsets_loop env ed rd layer subs res w = (Inr res', w')"
    and "key \<in> fst ` set subs"
    and "fs w (results_path rd layer key) = Some (File js)"
  shows "\<exists>run. from_json env js = Inr run \<and> map_of res' key = Some run"
  using assms
proof (induction subs arbitrary: res w)
  case Nil
  then show ?case by simp
next
  case (Cons x subs)
  obtain k s kw where x: "x = (k, s, kw)"
    by (cases x) auto
  note run = Cons.prems(1) [unfolded x]
  show ?case
  proof (cases "fs w (results_path rd layer k)")
    case None
    with Cons.prems(3) have neq: "key \<noteq> k" by auto
    with Cons.prems(2) x have rest: "key \<in> fst ` set subs" by auto
    from None run show ?thesis
    proof (cases rule: subsets_loop_fresh)
      case (continued w1 run js' w2)
      from mkdir_parents_keeps(1) [OF continued(1) Cons.prems(3)] continued(4) neq
      have "fs w2 (results_path rd layer key) = Some (File js)"
        by simp
      with continued(7) rest show ?thesis
        by (rule Cons.IH)
    qed simp_all
  next
    case (Some nd)
    from Some run show ?thesis
    proof (cases rule: subsets_loop_existing)
      case (parsed js' run)
      show ?thesis
      proof (cases "key \<in> fst ` set subs")
        case True
        with parsed(3) show ?thesis
          by (rule Cons.IH) (simp add: Cons.prems(3))
      next
        case False
        with Cons.prems(2) x have "key = k" by auto
        with Some parsed(1) Cons.prems(3) have "js' = js" by simp
        from subsets_loop_other_keys [OF parsed(3) False] \<open>key = k\<close> \<open>js' = js\<close> parsed(2)
        show ?thesis
          by (simp add: setitem_lookup)
      qed
    qed simp_all
  qed
qed

lemma subsets_loop_persists:
  assumes "subsets_loop env ed rd layer subs res w = (Inr res', w')"
    and "key \<in> fst ` set subs"
  shows "\<exists>js. fs w' (results_path rd layer key) = Some (File js)"
  using assms
proof (induction subs arbitrary: res w)
  case Nil
  then show ?case by simp
next
  case (Cons x subs)
  obtain k s kw where x: "x = (k, s, kw)"
    by (cases x) auto
  note run = Cons.prems(1) [unfolded x]
  have step: ?case
    if rest: "subsets_loop env ed rd layer subs res1 w1 = (Inr res', w')"
      and here: "fs w1 (results_path rd layer k) = Some (File js)" for res1 w1 js
  proof (cases "key \<in> fst ` set subs")
    case True
    with rest show ?thesis by (rule Cons.IH)
  next
    case False
    with Cons.prems(2) x have "key = k" by auto
    with subsets_loop_keeps_files [OF rest here] show ?thesis by simp
  qed
  show ?case
  proof (cases "fs w (results_path rd layer k)")
    case None
    from None run show ?thesis
    proof (cases rule: subsets_loop_fresh)
      case (continued w1 run js w2)
      from continued(7) show ?thesis
        by (rule step) (simp add: continued(4))
    qed simp_all
  next
    case (Some nd)
    from Some run show ?thesis
    proof (cases rule: subsets_loop_existing)
      case (parsed js run)
      from parsed(3) show ?thesis
        by (rule step) (simp add: Some parsed(1))
    qed simp_all
  qed
qed

lemma subsets_loop_all_persisted:
  assumes "subsets_loop env ed rd layer subs res w = (r, w')"
    and "\<forall>key \<in> fst ` set subs. fs w (results_path rd layer key) \<noteq> None"
  shows "fs w' = fs w" and "evaluated w' = evaluated w"
proof -
  from subsets_loop_calls [OF assms(1)] assms(2) show "evaluated w' = evaluated w"
    by (metis append_Nil2 last_in_set)
  from assms show "fs w' = fs w"
  proof (induction subs arbitrary: res w)
    case Nil
    then show ?case by simp
  next
    case (Cons x subs)
    obtain k s kw where x: "x = (k, s, kw)"
      by (cases x) auto
    with Cons.prems(2) obtain nd where nd: "fs w (results_path rd layer k) = Some nd"
      by auto
    from nd Cons.prems(1) [unfolded x] show ?case
    proof (cases rule: subsets_loop_existing)
      case (parsed js run)
      from Cons.IH [OF parsed(3)] Cons.prems(2) show ?thesis
        by simp
    qed simp_all
  qed
qed

lemma subsets_loop_same_files:
  assumes "fs w = fs v"
    and "\<forall>key \<in> fst ` set subs. fs w (results_path rd layer key) \<noteq> None"
  shows "fst (subsets_loop env ed rd layer subs res w) = fst (subsets_loop env ed rd layer subs res v)"
  using assms
proof (induction subs arbitrary: res w v)
  case Nil
  show ?case by simp
next
  case (Cons x subs)
  obtain k s kw where x: "x = (k, s, kw)"
    by (cases x) auto
  with Cons.prems(2) obtain nd where nd: "fs w (results_path rd layer k) = Some nd"
    by auto
  let ?w = "logger INFO (Found_existing k (results_path rd layer k)) w"
  let ?v = "logger INFO (Found_existing k (results_path rd layer k)) v"
  have "fst (subsets_loop env ed rd layer subs res1 ?w) =
        fst (subsets_loop env ed rd layer subs res1 ?v)" for res1
    using Cons.prems by (intro Cons.IH) simp_all
  with nd Cons.prems(1) show ?case
    by (simp add: x Let_def split: node.splits sum.splits)
qed

lemma str_nat_0: "str_nat 0 = ''0''" "str_nat 1 = ''1''"
  by simp_all

lemma str_int_0: "str_int 0 = ''0''" "str_int 1 = ''1''"
  by (simp_all add: str_int_def)

lemma load_editor_unsupported:
  assumes "map_of (SUPPORTED_EDITORS env) editor_type = None"
  shows "load_editor env editor_type mt layer editors_dir dev w = (Inl (KeyError editor_type), w)"
  using assms by (simp add: load_editor_def)

lemma load_editor_identity:
  assumes "map_of (SUPPORTED_EDITORS env) ''identity'' = Some factory"
  shows "load_editor env ''identity'' mt layer editors_dir dev w =
           (Inr (Some (to_device env (factory mt layer) dev)), w)"
  using assms by (simp add: load_editor_def)

lemma load_editor_missing:
  assumes "map_of (SUPPORTED_EDITORS env) editor_type = Some factory"
    and "editor_type \<noteq> ''identity''"
    and "editors_dir = None \<or>
         (\<exists>dir. editors_dir = Some dir \<and> fs w (weights_path dir editor_type layer) = None)"
  shows "load_editor env editor_type mt layer editors_dir dev w =
           (Inr None,
            logger WARNING
              (case editors_dir of
                 None \<Rightarrow> Editors_dir_not_specified
               | Some dir \<Rightarrow> Weights_not_found (weights_path dir editor_type layer)) w)"
  using assms by (auto simp: load_editor_def Let_def)

lemma load_editor_found:
  assumes "map_of (SUPPORTED_EDITORS env) editor_type = Some factory"
    and "editor_type \<noteq> ''identity''"
    and "fs w (weights_path dir editor_type layer) = Some nd"
  shows "fst (load_editor env editor_type mt layer (Some dir) dev w) \<noteq> Inr None"
    and "loaded (snd (load_editor env editor_type mt layer (Some dir) dev w)) =
           loaded w @ [weights_path dir editor_type layer]"
  using assms by (auto simp: load_editor_def Let_def split: node.splits sum.splits)

text \<open>
  Claim C10, as amended. For every editor type that is registered in
  \<open>SUPPORTED_EDITORS\<close>, \<open>load_editor\<close> returns \<open>None\<close> exactly when the type is not
  \<open>"identity"\<close> and either \<open>editors_dir\<close> is \<open>None\<close> or the weights file does not exist; and
  for the type \<open>"identity"\<close> it returns the constructed editor and leaves the world as it
  was: no file is loaded and nothing is logged.
\<close>

theorem load_editor_none_iff:
  assumes "map_of (SUPPORTED_EDITORS env) editor_type = Some factory"
  shows "(fst (load_editor env editor_type mt layer editors_dir dev w) = Inr None \<longleftrightarrow>
            editor_type \<noteq> ''identity'' \<and>
            (editors_dir = None \<or>
             (\<exists>dir. editors_dir = Some dir \<and> fs w (weights_path dir editor_type layer) = None))) \<and>
         (editor_type = ''identity'' \<longrightarrow>
            load_editor env editor_type mt layer editors_dir dev w =
              (Inr (Some (to_device env (factory mt layer) dev)), w))"
proof (cases "editor_type = ''identity''")
  case True
  with assms load_editor_identity [of env factory mt layer editors_dir dev w]
  show ?thesis by simp
next
  case False
  show ?thesis
  proof (cases "editors_dir = None \<or>
         (\<exists>dir. editors_dir = Some dir \<and> fs w (weights_path dir editor_type layer) = None)")
    case True
    from load_editor_missing [OF assms False True] False True show ?thesis
      by simp
  next
    case missing: False
    then obtain dir nd where "editors_dir = Some dir"
      "fs w (weights_path dir editor_type layer) = Some nd"
      by (cases editors_dir) auto
    with load_editor_found(1) [OF assms False this(2)] False missing show ?thesis
      by simp
  qed
qed

theorem load_editor_none_iff_witness:
  "map_of (SUPPORTED_EDITORS example_env) ''linear'' = Some (\<lambda>mt layer. (''linear'', layer, [])) \<and>
   map_of (SUPPORTED_EDITORS example_env) ''identity'' =
     Some (\<lambda>mt layer. (''identity'', layer, [])) \<and>
   fst (load_editor example_env ''linear'' () 0 (Some [''editors'']) None empty_world) = Inr None \<and>
   fs empty_world (weights_path [''editors''] ''linear'' 0) = None \<and>
   load_editor example_env ''identity'' () 0 None None empty_world =
     (Inr (Some (''identity'', 0, [])), empty_world)"
proof -
  have l: "map_of (SUPPORTED_EDITORS example_env) ''linear'' =
      Some (\<lambda>mt layer. (''linear'', layer, []))"
    and i: "map_of (SUPPORTED_EDITORS example_env) ''identity'' =
      Some (\<lambda>mt layer. (''identity'', layer, []))"
    by (simp_all add: example_env_def)
  have to: "to_device example_env ed None = ed" for ed
    by (simp add: example_env_def)
  from load_editor_none_iff [OF l, of "()" 0 "Some [''editors'']" None empty_world]
    load_editor_none_iff [OF i, of "()" 0 None None empty_world] l i
  show ?thesis
    by (simp add: empty_world_def to)
qed

text \<open>
  Claim C10 as stated fails for an editor type that is not registered: the lookup in
  \<open>SUPPORTED_EDITORS\<close> raises \<open>KeyError\<close> before anything else, so \<open>load_editor\<close> does not
  return \<open>None\<close> although the type is not \<open>"identity"\<close> and \<open>editors_dir\<close> is \<open>None\<close>.
\<close>

theorem load_editor_none_iff_counterexample:
  "load_editor example_env ''bogus'' () 0 None None empty_world =
     (Inl (KeyError ''bogus''), empty_world) \<and>
   \<not> (fst (load_editor example_env ''bogus'' () 0 None None empty_world) = Inr None \<longleftrightarrow>
        ''bogus'' \<noteq> ''identity'' \<and> (None :: path option) = None)"
  by (simp add: load_editor_def example_env_def)

lemma layers_loop_skip:
  assumes "map_of (SUPPORTED_EDITORS env) editor_type = Some factory"
    and "editor_type \<noteq> ''identity''"
    and "fs w (weights_path dir editor_type layer) = None"
  shows "layers_loop env editor_type mt (Some dir) dev results_dir subs (layer # layers) w =
           layers_loop env editor_type mt (Some dir) dev results_dir subs layers
             (logger WARNING (Skipping_layer layer)
                (logger WARNING (Weights_not_found (weights_path dir editor_type layer)) w))"
  using load_editor_missing [OF assms(1,2), of "Some dir" w layer mt dev] assms(3)
  by simp

lemma layers_loop_all_skipped:
  assumes "map_of (SUPPORTED_EDITORS env) editor_type = Some factory"
    and "editor_type \<noteq> ''identity''"
    and "\<forall>layer \<in> set layers. fs w (weights_path dir editor_type layer) = None"
  shows "fst (layers_loop env editor_type mt (Some dir) dev results_dir subs layers w) = Inr () \<and>
         fs (snd (layers_loop env editor_type mt (Some dir) dev results_dir subs layers w)) = fs w \<and>
         evaluated (snd (layers_loop env editor_type mt (Some dir) dev results_dir subs layers w)) =
           evaluated w \<and>
         log (snd (layers_loop env editor_type mt (Some dir) dev results_dir subs layers w)) =
           log w @ concat (map (\<lambda>layer.
             [(WARNING, Weights_not_found (weights_path dir editor_type layer)),
              (WARNING, Skipping_layer layer)]) layers)"
  using assms(3)
proof (induction layers arbitrary: w)
  case Nil
  show ?case by simp
next
  case (Cons layer layers)
  let ?w = "logger WARNING (Skipping_layer layer)
    (logger WARNING (Weights_not_found (weights_path dir editor_type layer)) w)"
  from Cons.prems have here: "fs w (weights_path dir editor_type layer) = None"
    and rest: "\<forall>layer \<in> set layers. fs ?w (weights_path dir editor_type layer) = None"
    by simp_all
  from Cons.IH [OF rest] show ?case
    unfolding layers_loop_skip [OF assms(1,2) here]
    by simp
qed

lemma main_enters_loop:
  assumes "editor_type \<noteq> ''identity''"
    and "fs w (dir @ [editor_type]) \<noteq> None"
    and "load_model st = Inr m" and "load_datasets st = Inr (p, pp, gp)"
  shows "main env st (Some editor_type) (Some dir) (Some ls) dev results_dir max_len w =
           layers_loop env editor_type m (Some dir) dev results_dir (subsets p pp gp max_len) ls
             (logger INFO Loading_data_sources
                (logger INFO Loading_model
                   (logger INFO (Will_look_for (Some editor_type) (Some dir)) w)))"
proof -
  from assms(2) obtain nd where "fs w (dir @ [editor_type]) = Some nd"
    by auto
  with assms(1,3,4) show ?thesis
    by (simp add: main_def editors_guard_def default_layers_def Let_def)
qed

text \<open>
  Claim C7, as amended. For every non-identity editor type that is registered in
  \<open>SUPPORTED_EDITORS\<close> and every requested layer: if the weights file of the layer does not
  exist, or \<open>editors_dir\<close> is \<open>None\<close>, \<open>load_editor\<close> returns \<open>None\<close>; and in \<open>main\<close>, which
  reaches its loop only with \<open>editors_dir\<close> given and the directory of the editor type in
  it, the loop logs that it skips a layer without weights file and goes on with the layers
  that remain. So a run in which no requested layer has a weights file ends normally, with
  two warnings for each layer, no evaluation and no file changed.
\<close>

theorem missing_weights_skip_layer:
  assumes "map_of (SUPPORTED_EDITORS env) editor_type = Some factory"
    and "editor_type \<noteq> ''identity''"
  shows "(editors_dir = None \<or>
          (\<exists>dir. editors_dir = Some dir \<and> fs w (weights_path dir editor_type layer) = None) \<longrightarrow>
            fst (load_editor env editor_type mt layer editors_dir dev w) = Inr None) \<and>
         (\<forall>dir. fs w (dir @ [editor_type]) \<noteq> None \<and>
                fs w (weights_path dir editor_type layer) = None \<longrightarrow>
            layers_loop env editor_type mt (Some dir) dev results_dir subs (layer # layers) w =
              layers_loop env editor_type mt (Some dir) dev results_dir subs layers
                (logger WARNING (Skipping_layer layer)
                   (logger WARNING (Weights_not_found (weights_path dir editor_type layer)) w))) \<and>
         (\<forall>dir ls p pp gp.
            fs w (dir @ [editor_type]) \<noteq> None \<and>
            load_model st = Inr mt \<and> load_datasets st = Inr (p, pp, gp) \<longrightarrow>
            main env st (Some editor_type) (Some dir) (Some ls) dev results_dir max_len w =
              layers_loop env editor_type mt (Some dir) dev results_dir
                (subsets p pp gp max_len) ls
                (logger INFO Loading_data_sources
                   (logger INFO Loading_model
                      (logger INFO (Will_look_for (Some editor_type) (Some dir)) w))) \<and>
            ((\<forall>l \<in> set ls. fs w (weights_path dir editor_type l) = None) \<longrightarrow>
               fst (main env st (Some editor_type) (Some dir) (Some ls) dev results_dir max_len w) =
                 Inr () \<and>
               fs (snd (main env st (Some editor_type) (Some dir) (Some ls) dev results_dir
                          max_len w)) = fs w \<and>
               evaluated (snd (main env st (Some editor_type) (Some dir) (Some ls) dev results_dir
                                 max_len w)) = evaluated w \<and>
               log (snd (main env st (Some editor_type) (Some dir) (Some ls) dev results_dir
                           max_len w)) =
                 log w @ [(INFO, Will_look_for (Some editor_type) (Some dir)),
                          (INFO, Loading_model), (INFO, Loading_data_sources)] @
                 concat (map (\<lambda>l. [(WARNING, Weights_not_found (weights_path dir editor_type l)),
                                    (WARNING, Skipping_layer l)]) ls)))"
proof (intro conjI allI impI)
  assume "editors_dir = None \<or>
      (\<exists>dir. editors_dir = Some dir \<and> fs w (weights_path dir editor_type layer) = None)"
  from load_editor_missing [OF assms this, of mt dev]
  show "fst (load_editor env editor_type mt layer editors_dir dev w) = Inr None"
    by simp
next
  fix dir
  assume "fs w (dir @ [editor_type]) \<noteq> None \<and> fs w (weights_path dir editor_type layer) = None"
  then have "fs w (weights_path dir editor_type layer) = None" ..
  from layers_loop_skip [OF assms this]
  show "layers_loop env editor_type mt (Some dir) dev results_dir subs (layer # layers) w =
      layers_loop env editor_type mt (Some dir) dev results_dir subs layers
        (logger WARNING (Skipping_layer layer)
           (logger WARNING (Weights_not_found (weights_path dir editor_type layer)) w))" .
next
  fix dir ls p pp gp
  assume past: "fs w (dir @ [editor_type]) \<noteq> None \<and>
      load_model st = Inr mt \<and> load_datasets st = Inr (p, pp, gp)"
  let ?w = "logger INFO Loading_data_sources
    (logger INFO Loading_model (logger INFO (Will_look_for (Some editor_type) (Some dir)) w))"
  from past have enters:
    "main env st (Some editor_type) (Some dir) (Some ls) dev results_dir max_len w =
       layers_loop env editor_type mt (Some dir) dev results_dir (subsets p pp gp max_len) ls ?w"
    by (intro main_enters_loop assms(2)) simp_all
  then show "main env st (Some editor_type) (Some dir) (Some ls) dev results_dir max_len w =
       layers_loop env editor_type mt (Some dir) dev results_dir (subsets p pp gp max_len) ls ?w" .
  assume "\<forall>l \<in> set ls. fs w (weights_path dir editor_type l) = None"
  then have "\<forall>l \<in> set ls. fs ?w (weights_path dir editor_type l) = None"
    by simp
  note all = layers_loop_all_skipped [OF assms this, of mt dev results_dir "subsets p pp gp max_len"]
  from all show
    "fst (main env st (Some editor_type) (Some dir) (Some ls) dev results_dir max_len w) = Inr ()"
    unfolding enters by simp
  from all show
    "fs (snd (main env st (Some editor_type) (Some dir) (Some ls) dev results_dir max_len w)) = fs w"
    unfolding enters by simp
  from all show
    "evaluated (snd (main env st (Some editor_type) (Some dir) (Some ls) dev results_dir max_len w)) =
       evaluated w"
    unfolding enters by simp
  from all show
    "log (snd (main env st (Some editor_type) (Some dir) (Some ls) dev results_dir max_len w)) =
       log w @ [(INFO, Will_look_for (Some editor_type) (Some dir)),
                (INFO, Loading_model), (INFO, Loading_data_sources)] @
       concat (map (\<lambda>l. [(WARNING, Weights_not_found (weights_path dir editor_type l)),
                          (WARNING, Skipping_layer l)]) ls)"
    unfolding enters by simp
qed


theorem missing_weights_skip_layer_witness:
  "map_of (SUPPORTED_EDITORS example_env) ''linear'' = Some (\<lambda>mt layer. (''linear'', layer, [])) \<and>
   ''linear'' \<noteq> ''identity'' \<and>
   fs editors_world ([''editors''] @ [''linear'']) = Some Dir \<and>
   fs editors_world (weights_path [''editors''] ''linear'' 0) = None \<and>
   fs editors_world (weights_path [''editors''] ''linear'' 1) = None \<and>
   load_model example_startup = Inr () \<and>
   load_datasets example_startup = Inr ([], [], []) \<and>
   fst (load_editor example_env ''linear'' () 0 (Some [''editors'']) None editors_world) = Inr None \<and>
   fst (main example_env example_startup (Some ''linear'') (Some [''editors'']) (Some [0, 1]) None
          [''results''] 100 editors_world) = Inr () \<and>
   evaluated (snd (main example_env example_startup (Some ''linear'') (Some [''editors''])
                     (Some [0, 1]) None [''results''] 100 editors_world)) = [] \<and>
   log (snd (main example_env example_startup (Some ''linear'') (Some [''editors''])
               (Some [0, 1]) None [''results''] 100 editors_world)) =
     [(INFO, Will_look_for (Some ''linear'') (Some [''editors''])),
      (INFO, Loading_model), (INFO, Loading_data_sources),
      (WARNING, Weights_not_found (weights_path [''editors''] ''linear'' 0)),
      (WARNING, Skipping_layer 0),
      (WARNING, Weights_not_found (weights_path [''editors''] ''linear'' 1)),
      (WARNING, Skipping_layer 1)]"
proof -
  have reg: "map_of (SUPPORTED_EDITORS example_env) ''linear'' =
      Some (\<lambda>mt layer. (''linear'', layer, []))"
    by (simp add: example_env_def)
  have nid: "''linear'' \<noteq> ''identity''"
    by simp
  have dir: "fs editors_world ([''editors''] @ [''linear'']) = Some Dir"
    by (simp add: editors_world_def)
  have none: "fs editors_world (weights_path [''editors''] ''linear'' l) = None" for l
    by (simp add: editors_world_def weights_path_def)
  have st: "load_model example_startup = Inr ()"
    "load_datasets example_startup = Inr ([], [], [])"
    by (simp_all add: example_startup_def)
  note inst = missing_weights_skip_layer [OF reg nid, of "Some [''editors'']" editors_world 0 "()"
      None "[''results'']" "[]" "[]" example_startup 100]
  from inst none have 1:
    "fst (load_editor example_env ''linear'' () 0 (Some [''editors'']) None editors_world) = Inr None"
    by blast
  from inst have "fs editors_world ([''editors''] @ [''linear'']) \<noteq> None \<and>
      load_model example_startup = Inr () \<and>
      load_datasets example_startup = Inr ([], [], []) \<longrightarrow>
      ((\<forall>l \<in> set [0, 1]. fs editors_world (weights_path [''editors''] ''linear'' l) = None) \<longrightarrow>
       fst (main example_env example_startup (Some ''linear'') (Some [''editors'']) (Some [0, 1])
              None [''results''] 100 editors_world) = Inr () \<and>
       fs (snd (main example_env example_startup (Some ''linear'') (Some [''editors''])
                  (Some [0, 1]) None [''results''] 100 editors_world)) = fs editors_world \<and>
       evaluated (snd (main example_env example_startup (Some ''linear'') (Some [''editors''])
                         (Some [0, 1]) None [''results''] 100 editors_world)) =
         evaluated editors_world \<and>
       log (snd (main example_env example_startup (Some ''linear'') (Some [''editors''])
                   (Some [0, 1]) None [''results''] 100 editors_world)) =
         log editors_world @ [(INFO, Will_look_for (Some ''linear'') (Some [''editors''])),
                  (INFO, Loading_model), (INFO, Loading_data_sources)] @
         concat (map (\<lambda>l. [(WARNING, Weights_not_found (weights_path [''editors''] ''linear'' l)),
                            (WARNING, Skipping_layer l)]) [0, 1]))"
    by blast
  with dir st none have 2:
    "fst (main example_env example_startup (Some ''linear'') (Some [''editors'']) (Some [0, 1])
              None [''results''] 100 editors_world) = Inr ()"
    "evaluated (snd (main example_env example_startup (Some ''linear'') (Some [''editors''])
                         (Some [0, 1]) None [''results''] 100 editors_world)) =
         evaluated editors_world"
    "log (snd (main example_env example_startup (Some ''linear'') (Some [''editors''])
                   (Some [0, 1]) None [''results''] 100 editors_world)) =
         log editors_world @ [(INFO, Will_look_for (Some ''linear'') (Some [''editors''])),
                  (INFO, Loading_model), (INFO, Loading_data_sources)] @
         concat (map (\<lambda>l. [(WARNING, Weights_not_found (weights_path [''editors''] ''linear'' l)),
                            (WARNING, Skipping_layer l)]) [0, 1])"
    by simp_all
  have w: "evaluated editors_world = []" "log editors_world = []"
    by (simp_all add: editors_world_def)
  from reg nid dir none st 1 2 show ?thesis
    unfolding w by simp
qed

text \<open>
  Claim C7 as stated fails in two ways. For an editor type that is not registered, with its
  directory in place and no weights file, \<open>load_editor\<close> raises \<open>KeyError\<close> at the lookup in
  \<open>SUPPORTED_EDITORS\<close> and \<open>main\<close> ends with that exception at the first layer, without a
  warning. And with \<open>editors_dir\<close> \<open>None\<close>, \<open>main\<close> raises \<open>TypeError\<close> at its check of the
  editors directory, before the loop: no layer is skipped and nothing goes on.
\<close>

theorem missing_weights_skip_layer_counterexample:
  "''bogus'' \<noteq> ''identity'' \<and>
   fs editors_world ([''editors''] @ [''bogus'']) = Some Dir \<and>
   fs editors_world (weights_path [''editors''] ''bogus'' 0) = None \<and>
   fst (load_editor example_env ''bogus'' () 0 (Some [''editors'']) None editors_world) \<noteq> Inr None \<and>
   main example_env example_startup (Some ''bogus'') (Some [''editors'']) (Some [0, 1]) None
       [''results''] 100 editors_world =
     (Inl (KeyError ''bogus''),
      logger INFO Loading_data_sources
        (logger INFO Loading_model
           (logger INFO (Will_look_for (Some ''bogus'') (Some [''editors''])) editors_world))) \<and>
   map_of (SUPPORTED_EDITORS example_env) ''linear'' = Some (\<lambda>mt layer. (''linear'', layer, [])) \<and>
   main example_env example_startup (Some ''linear'') None (Some [0, 1]) None
       [''results''] 100 editors_world =
     (Inl (TypeError ''expected str, bytes or os.PathLike object''),
      logger INFO (Will_look_for (Some ''linear'') None) editors_world)"
  by (simp add: main_def editors_guard_def default_layers_def load_editor_def example_env_def
      example_startup_def editors_world_def weights_path_def logger_def Let_def)


lemma persisted_run:
  "fst (subsets_loop example_env ed [''results''] 0 (subsets [] [] [] 100) [] persisted_world) =
     Inr [(''prompts'', [''a'']), (''paraphrase_prompts'', [''b'']),
          (''generation_prompts'', [''c''])]"
  by (simp add: subsets_def persisted_world_def example_env_def Let_def)


section \<open>Properties of \<open>group_by_id\<close>\<close>

lemma defaultdict_append_keys:
  "map fst (defaultdict_append k v g) =
     (if k \<in> set (map fst g) then map fst g else map fst g @ [k])"
proof (induction g)
  case Nil
  show ?case by simp
next
  case (Cons kv g)
  then show ?case by (cases kv) auto
qed

lemma defaultdict_append_lookup:
  "map_of (defaultdict_append k v g) k' =
     (if k' = k then Some ((case map_of g k of None \<Rightarrow> [] | Some vs \<Rightarrow> vs) @ [v])
      else map_of g k')"
  by (induction g) auto

lemma first_occurrences_set: "set (first_occurrences ks) = set ks"
  by (induction ks) auto

lemma first_occurrences_distinct: "distinct (first_occurrences ks)"
  by (induction ks) (auto simp: first_occurrences_set)

lemma first_occurrences_snoc:
  "first_occurrences (ks @ [k]) =
     (if k \<in> set ks then first_occurrences ks else first_occurrences ks @ [k])"
  by (induction ks) auto

lemma group_by_id_snoc:
  "group_by_id \<lparr>results = rs @ [r]\<rparr> =
     defaultdict_append (sample_id r) r (group_by_id \<lparr>results = rs\<rparr>)"
  by (simp add: group_by_id_def)

lemma group_by_id_keys:
  "map fst (group_by_id \<lparr>results = rs\<rparr>) = first_occurrences (map sample_id rs)"
proof (induction rs rule: rev_induct)
  case Nil
  show ?case by (simp add: group_by_id_def)
next
  case (snoc r rs)
  have "set (map fst (group_by_id \<lparr>results = rs\<rparr>)) = sample_id ` set rs"
    unfolding snoc.IH first_occurrences_set by simp
  then show ?case
    using snoc.IH
    by (simp add: group_by_id_snoc defaultdict_append_keys first_occurrences_snoc)
qed

lemma group_by_id_lookup:
  "map_of (group_by_id \<lparr>results = rs\<rparr>) k =
     (if k \<in> sample_id ` set rs then Some (filter (\<lambda>r. sample_id r = k) rs) else None)"
proof (induction rs rule: rev_induct)
  case Nil
  show ?case by (simp add: group_by_id_def)
next
  case (snoc r rs)
  show ?case
  proof (cases "k = sample_id r")
    case True
    have "filter (\<lambda>r'. sample_id r' = k) rs = []" if "k \<notin> sample_id ` set rs"
      using that by (auto simp: filter_empty_conv)
    then show ?thesis
      using True snoc.IH
      by (simp add: group_by_id_snoc defaultdict_append_lookup)
  next
    case False
    then show ?thesis
      using snoc.IH
      by (simp add: group_by_id_snoc defaultdict_append_lookup)
  qed
qed

text \<open>
  Claim C3. For every run, \<open>group_by_id\<close> returns a dictionary with one entry per sample ID;
  its keys are in the order in which the IDs first occur in \<open>results\<close>, and the list
  stored under an ID holds exactly the results with that ID, in their order in \<open>results\<close>.
\<close>

theorem group_by_id_order_preserving:
  "map fst (group_by_id run) = first_occurrences (map sample_id (results run)) \<and>
   distinct (map fst (group_by_id run)) \<and>
   (\<forall>(k, grp) \<in> set (group_by_id run).
      grp = filter (\<lambda>r. sample_id r = k) (results run) \<and> grp \<noteq> [])"
proof -
  obtain rs where run: "run = \<lparr>results = rs\<rparr>"
    by (cases run) simp
  have keys: "map fst (group_by_id run) = first_occurrences (map sample_id rs)"
    unfolding run by (rule group_by_id_keys)
  have dist: "distinct (map fst (group_by_id run))"
    unfolding keys by (rule first_occurrences_distinct)
  have grp: "grp = filter (\<lambda>r. sample_id r = k) rs \<and> grp \<noteq> []"
    if "(k, grp) \<in> set (group_by_id run)" for k grp
  proof -
    from that dist have "map_of (group_by_id run) k = Some grp"
      by simp
    then have "k \<in> sample_id ` set rs" and "grp = filter (\<lambda>r. sample_id r = k) rs"
      unfolding run group_by_id_lookup by (simp_all split: if_splits)
    then show ?thesis
      by (auto simp: filter_empty_conv)
  qed
  show ?thesis
    using keys dist grp by (auto simp: run)
qed

theorem group_by_id_order_preserving_witness:
  "group_by_id \<lparr>results =
      [\<lparr>sample_id = ''a'', body = 1::nat\<rparr>, \<lparr>sample_id = ''b'', body = 2\<rparr>,
       \<lparr>sample_id = ''a'', body = 3\<rparr>]\<rparr> =
     [(''a'', [\<lparr>sample_id = ''a'', body = 1\<rparr>, \<lparr>sample_id = ''a'', body = 3\<rparr>]),
      (''b'', [\<lparr>sample_id = ''b'', body = 2\<rparr>])] \<and>
   map fst (group_by_id \<lparr>results =
      [\<lparr>sample_id = ''a'', body = 1::nat\<rparr>, \<lparr>sample_id = ''b'', body = 2\<rparr>,
       \<lparr>sample_id = ''a'', body = 3\<rparr>]\<rparr>) = [''a'', ''b''] \<and>
   map snd (group_by_id \<lparr>results =
      [\<lparr>sample_id = ''a'', body = 1::nat\<rparr>, \<lparr>sample_id = ''b'', body = 2\<rparr>,
       \<lparr>sample_id = ''a'', body = 3\<rparr>]\<rparr>) =
     map (\<lambda>k. filter (\<lambda>r. sample_id r = k)
         [\<lparr>sample_id = ''a'', body = 1::nat\<rparr>, \<lparr>sample_id = ''b'', body = 2\<rparr>,
          \<lparr>sample_id = ''a'', body = 3\<rparr>]) [''a'', ''b'']"
  using group_by_id_order_preserving
    [of "\<lparr>results =
      [\<lparr>sample_id = ''a'', body = 1::nat\<rparr>, \<lparr>sample_id = ''b'', body = 2\<rparr>,
       \<lparr>sample_id = ''a'', body = 3\<rparr>]\<rparr>"]
  by (simp add: group_by_id_def)

section \<open>Properties of the essence benchmark\<close>

lemma record_call_fields [simp]:
  "hooks (record_call c m) = hooks m"
  "calls (record_call c m) = calls m @ [c]"
  by (simp_all add: record_call_def)

lemma apply_scope_restores:
  "hooks (snd (apply_scope h block m)) = hooks m"
  by (simp add: apply_scope_def Let_def split: prod.splits)

lemma example_run_ok:
  "essence (example_essence_env False) (\<lambda>a b d. ''edit'') example_dataset example_kwargs unedited =
     (Inr \<lparr>essence_samples =
             [\<lparr>sample_ident = ''s0'', generation = ''Paris is edited'',
               references = [''Paris is base''], essence_score = 1,
               fluency_generation_score = 1, fluency_references_score = 1\<rparr>,
              \<lparr>sample_ident = ''s1'', generation = ''Rome is edited'',
               references = [''Rome is base''], essence_score = 1,
               fluency_generation_score = 1, fluency_references_score = 1\<rparr>],
           essence_metrics =
             \<lparr>essence_metric = 2, fluency_generaton = 2, fluency_references = 2\<rparr>\<rparr>,
      \<lparr>hooks = [],
       calls = [Generate [] [''Paris is''] None (Some 100),
                Generate_edited [''edit''] [''Paris is''] None (Some 100),
                Generate [] [''Rome is''] None (Some 100),
                Generate_edited [''edit''] [''Rome is''] None (Some 100)]\<rparr>)"
  by (simp add: essence_def essence_run_def validate_def example_kwargs_def example_dataset_def
      example_essence_env_def unedited_def essence_batch_def apply_scope_def record_call_def
      DEFAULT_MAX_LENGTH_def enumerate_eq_zip Let_def bindE_def thenS_def)

lemma example_run_failing:
  "essence (example_essence_env True) (\<lambda>a b d. ''edit'') example_dataset example_kwargs unedited =
     (Inl (Raised ''generate''),
      \<lparr>hooks = [],
       calls = [Generate [] [''Paris is''] None (Some 100),
                Generate_edited [''edit''] [''Paris is''] None (Some 100)]\<rparr>)"
  by (simp add: essence_def essence_run_def validate_def example_kwargs_def example_dataset_def
      example_essence_env_def unedited_def essence_batch_def apply_scope_def record_call_def
      DEFAULT_MAX_LENGTH_def enumerate_eq_zip Let_def bindE_def thenS_def)


lemma apply_scope_trace:
  assumes "apply_scope h (\<lambda>em. (g (hooks em), record_call (c (hooks em)) em)) m = (r, m')"
  shows "hooks m' = hooks m" and "calls m' = calls m @ [c (h # hooks m)]"
    and "r = g (h # hooks m)"
  using assms by (auto simp: apply_scope_def Let_def)

lemma essence_batch_trace:
  assumes "essence_batch env ed kw ml vec pkv ib acc m = (r, m')"
  shows "hooks m' = hooks m"
    and "\<exists>cs. calls m' = calls m @ cs \<and>
           set cs \<subseteq> range (\<lambda>ps. Generate (hooks m) ps (max_new_tokens kw) ml) \<union>
                    range (\<lambda>ps. Generate_edited (ed (alpha kw) (beta kw) (device kw) # hooks m) ps
                             (max_new_tokens kw) ml)"
proof -
  obtain batch_index batch gens rgs es fgs frs where
    ib: "ib = (batch_index, batch)" and acc: "acc = (gens, rgs, es, fgs, frs)"
    by (cases ib; cases acc) auto
  let ?G = "range (\<lambda>ps. Generate (hooks m) ps (max_new_tokens kw) ml) \<union>
            range (\<lambda>ps. Generate_edited (ed (alpha kw) (beta kw) (device kw) # hooks m) ps
                     (max_new_tokens kw) ml)"
  have "hooks m' = hooks m \<and> (\<exists>cs. calls m' = calls m @ cs \<and> set cs \<subseteq> ?G)"
    using assms unfolding essence_batch_def ib acc prod.case Let_def
  proof (cases rule: thenS_cases)
    case (raised e)
    then show ?thesis by simp
  next
    case (returned prompts m0)
    then have m0: "m0 = m" by simp
    from returned(2) show ?thesis
    proof (cases rule: thenS_cases)
      case (raised e)
      with m0 show ?thesis by simp
    next
      case (returned inputs m0')
      then have m0': "m0' = m" using m0 by simp
      from returned(2) show ?thesis
      proof (cases rule: thenS_cases)
        case (raised e)
        with m0' show ?thesis
          by (auto split: option.splits)
      next
        case (returned brg m1)
        then have m1: "hooks m1 = hooks m"
          "\<exists>cs. calls m1 = calls m @ cs \<and> set cs \<subseteq> ?G"
          using m0' by (auto split: option.splits)
        from returned(2) show ?thesis
        proof (cases rule: thenS_cases)
          case (raised e)
          from apply_scope_trace(1,2) [OF raised(1)] m1 show ?thesis
            by auto
        next
          case (returned outputs m2)
          from apply_scope_trace(1,2) [OF returned(1)] m1
          have m2: "hooks m2 = hooks m"
            "\<exists>cs. calls m2 = calls m @ cs \<and> set cs \<subseteq> ?G"
            by auto
          from returned(2) m2 show ?thesis
            by (cases rule: thenS_cases) (auto split: prod.splits)
        qed
      qed
    qed
  qed
  then show "hooks m' = hooks m"
    and "\<exists>cs. calls m' = calls m @ cs \<and> set cs \<subseteq> ?G"
    by simp_all
qed


lemma batches_loop_trace:
  assumes "batches_loop env ed kw ml vec pkv ibs acc m = (r, m')"
  shows "hooks m' = hooks m"
    and "\<exists>cs. calls m' = calls m @ cs \<and>
           set cs \<subseteq> range (\<lambda>ps. Generate (hooks m) ps (max_new_tokens kw) ml) \<union>
                    range (\<lambda>ps. Generate_edited (ed (alpha kw) (beta kw) (device kw) # hooks m) ps
                             (max_new_tokens kw) ml)"
proof -
  let ?G = "\<lambda>m. range (\<lambda>ps. Generate (hooks m) ps (max_new_tokens kw) ml) \<union>
            range (\<lambda>ps. Generate_edited (ed (alpha kw) (beta kw) (device kw) # hooks m) ps
                     (max_new_tokens kw) ml)"
  from assms have "hooks m' = hooks m \<and> (\<exists>cs. calls m' = calls m @ cs \<and> set cs \<subseteq> ?G m)"
  proof (induction ibs arbitrary: acc m)
    case Nil
    then show ?case by simp
  next
    case (Cons ib ibs)
    from Cons.prems [simplified batches_loop.simps] show ?case
    proof (cases rule: thenS_cases)
      case (raised e)
      with essence_batch_trace [OF raised(1)] show ?thesis by simp
    next
      case (returned acc1 m1)
      note one = essence_batch_trace [OF returned(1)]
      from Cons.IH [OF returned(2)] one(1)
      have rest: "hooks m' = hooks m" "\<exists>cs. calls m' = calls m1 @ cs \<and> set cs \<subseteq> ?G m"
        by simp_all
      from one(2) rest(2) obtain cs1 cs2 where
        "calls m1 = calls m @ cs1" "set cs1 \<subseteq> ?G m" "calls m' = calls m1 @ cs2" "set cs2 \<subseteq> ?G m"
        by blast
      then have "calls m' = calls m @ (cs1 @ cs2)" "set (cs1 @ cs2) \<subseteq> ?G m"
        by simp_all
      with rest(1) show ?thesis by blast
    qed
  qed
  then show "hooks m' = hooks m"
    and "\<exists>cs. calls m' = calls m @ cs \<and> set cs \<subseteq> ?G m"
    by simp_all
qed

lemma essence_run_trace:
  assumes "essence_run env ed ds kw m = (r, m')"
  shows "hooks m' = hooks m"
    and "\<exists>cs. calls m' = calls m @ cs \<and>
           set cs \<subseteq> {Load_tfidf_vectorizer} \<union> range (Forward (hooks m)) \<union>
             range (\<lambda>ps. Generate (hooks m) ps (max_new_tokens kw)
                      (if max_length kw = None \<and> max_new_tokens kw = None
                       then Some DEFAULT_MAX_LENGTH else max_length kw)) \<union>
             range (\<lambda>ps. Generate_edited (ed (alpha kw) (beta kw) (device kw) # hooks m) ps
                      (max_new_tokens kw)
                      (if max_length kw = None \<and> max_new_tokens kw = None
                       then Some DEFAULT_MAX_LENGTH else max_length kw))"
proof -
  let ?ml = "if max_length kw = None \<and> max_new_tokens kw = None
             then Some DEFAULT_MAX_LENGTH else max_length kw"
  let ?A = "{Load_tfidf_vectorizer} \<union> range (Forward (hooks m)) \<union>
             range (\<lambda>ps. Generate (hooks m) ps (max_new_tokens kw) ?ml) \<union>
             range (\<lambda>ps. Generate_edited (ed (alpha kw) (beta kw) (device kw) # hooks m) ps
                      (max_new_tokens kw) ?ml)"
  have "hooks m' = hooks m \<and> (\<exists>cs. calls m' = calls m @ cs \<and> set cs \<subseteq> ?A)"
    using assms unfolding essence_run_def Let_def
  proof (cases rule: thenS_cases)
    case (raised e)
    then show ?thesis by (auto split: option.splits)
  next
    case (returned vec m1)
    then have m1: "hooks m1 = hooks m" "\<exists>cs. calls m1 = calls m @ cs \<and> set cs \<subseteq> ?A"
      by (auto split: option.splits)
    from returned(2) show ?thesis
    proof (cases rule: thenS_cases)
      case (raised e)
      with m1 show ?thesis by (auto split: option.splits)
    next
      case (returned pkv m2)
      with m1 have m2: "hooks m2 = hooks m" "\<exists>cs. calls m2 = calls m @ cs \<and> set cs \<subseteq> ?A"
        by (auto split: option.splits)
      have m3: "hooks m3 = hooks m \<and> (\<exists>cs. calls m3 = calls m @ cs \<and> set cs \<subseteq> ?A)"
        if run: "(if batch_size kw \<le> 0
           then (Inl (ValueError ''batch_size should be a positive integer value''), m2)
           else batches_loop env ed kw ?ml vec pkv
                  (enumerate 0 (chunks (nat (batch_size kw)) ds)) ([], [], [], [], []) m2) =
           (r3, m3)" for r3 m3
      proof (cases "batch_size kw \<le> 0")
        case True
        with run m2 show ?thesis by simp
      next
        case False
        with run have loop: "batches_loop env ed kw ?ml vec pkv
            (enumerate 0 (chunks (nat (batch_size kw)) ds)) ([], [], [], [], []) m2 = (r3, m3)"
          by simp
        from batches_loop_trace [OF loop] m2 obtain cs2 cs3 where
          "hooks m3 = hooks m" "calls m2 = calls m @ cs2" "set cs2 \<subseteq> ?A"
          "calls m3 = calls m2 @ cs3"
          "set cs3 \<subseteq> range (\<lambda>ps. Generate (hooks m) ps (max_new_tokens kw) ?ml) \<union>
             range (\<lambda>ps. Generate_edited (ed (alpha kw) (beta kw) (device kw) # hooks m) ps
                      (max_new_tokens kw) ?ml)"
          by auto
        then have "hooks m3 = hooks m" "calls m3 = calls m @ (cs2 @ cs3)" "set (cs2 @ cs3) \<subseteq> ?A"
          by auto
        then show ?thesis by blast
      qed
      from returned(2) show ?thesis
      proof (cases rule: thenS_cases)
        case (raised e)
        from m3 [OF raised(1)] show ?thesis .
      next
        case (returned acc m3')
        from m3 [OF returned(1)] returned(2) show ?thesis
          by (auto split: prod.splits)
      qed
    qed
  qed
  then show "hooks m' = hooks m"
    and "\<exists>cs. calls m' = calls m @ cs \<and> set cs \<subseteq> ?A"
    by simp_all
qed

lemma essence_trace:
  assumes "essence env ed ds kw m = (r, m')"
  shows "hooks m' = hooks m"
    and "\<exists>cs. calls m' = calls m @ cs \<and>
           set cs \<subseteq> {Load_tfidf_vectorizer} \<union> range (Forward (hooks m)) \<union>
             range (\<lambda>ps. Generate (hooks m) ps (max_new_tokens kw)
                      (if max_length kw = None \<and> max_new_tokens kw = None
                       then Some DEFAULT_MAX_LENGTH else max_length kw)) \<union>
             range (\<lambda>ps. Generate_edited (ed (alpha kw) (beta kw) (device kw) # hooks m) ps
                      (max_new_tokens kw)
                      (if max_length kw = None \<and> max_new_tokens kw = None
                       then Some DEFAULT_MAX_LENGTH else max_length kw))"
proof -
  show "hooks m' = hooks m"
    using assms essence_run_trace(1) [of env ed ds kw m r m']
    by (auto simp: essence_def split: sum.splits)
  show "\<exists>cs. calls m' = calls m @ cs \<and>
           set cs \<subseteq> {Load_tfidf_vectorizer} \<union> range (Forward (hooks m)) \<union>
             range (\<lambda>ps. Generate (hooks m) ps (max_new_tokens kw)
                      (if max_length kw = None \<and> max_new_tokens kw = None
                       then Some DEFAULT_MAX_LENGTH else max_length kw)) \<union>
             range (\<lambda>ps. Generate_edited (ed (alpha kw) (beta kw) (device kw) # hooks m) ps
                      (max_new_tokens kw)
                      (if max_length kw = None \<and> max_new_tokens kw = None
                       then Some DEFAULT_MAX_LENGTH else max_length kw))"
  proof (cases "validate kw ds")
    case (Inl e)
    with assms show ?thesis by (simp add: essence_def)
  next
    case (Inr u)
    with assms have "essence_run env ed ds kw m = (r, m')"
      by (simp add: essence_def)
    then show ?thesis by (rule essence_run_trace(2))
  qed
qed

lemma validate_Inr_iff:
  "validate kw ds = Inr () \<longleftrightarrow>
     str_count (prompt_template kw) ''{}'' = 1 \<and>
     (\<forall>refs. use_references kw = Some refs \<longrightarrow> length refs = length ds)"
  by (auto simp: validate_def split: option.splits)

text \<open>
  Claim C6. \<open>essence\<close> raises \<open>ValueError\<close> and leaves the model untouched, with nothing
  computed, whenever \<open>prompt_template\<close> does not contain exactly one \<open>{}\<close>, and whenever
  \<open>use_references\<close> is given with a length other than that of the dataset; if neither is
  the case, both checks pass and the benchmark goes on to its work.
\<close>

theorem essence_rejects_invalid_arguments:
  "(str_count (prompt_template kw) ''{}'' \<noteq> 1 \<longrightarrow>
      essence env ed ds kw m = (Inl (ValueError ''prompt template needs 1 empty slot''), m)) \<and>
   ((\<exists>refs. use_references kw = Some refs \<and> length refs \<noteq> length ds) \<longrightarrow>
      (\<exists>msg. essence env ed ds kw m = (Inl (ValueError msg), m))) \<and>
   (str_count (prompt_template kw) ''{}'' = 1 \<and>
    (\<forall>refs. use_references kw = Some refs \<longrightarrow> length refs = length ds) \<longrightarrow>
      validate kw ds = Inr () \<and> essence env ed ds kw m = essence_run env ed ds kw m)"
  by (auto simp: essence_def validate_def split: option.splits)

lemma str_count_examples:
  "str_count ''{} is'' ''{}'' = 1" "str_count ''{} and {}'' ''{}'' = 2"
  "str_count ''is'' ''{}'' = 0" "str_count ''{{}}'' ''{}'' = 1"
  by simp_all

theorem essence_rejects_invalid_arguments_witness:
  "str_count (prompt_template (example_kwargs\<lparr>prompt_template := ''{} and {}''\<rparr>)) ''{}'' \<noteq> 1 \<and>
   essence (example_essence_env False) (\<lambda>a b d. ''edit'') example_dataset
       (example_kwargs\<lparr>prompt_template := ''{} and {}''\<rparr>) unedited =
     (Inl (ValueError ''prompt template needs 1 empty slot''), unedited) \<and>
   use_references (example_kwargs\<lparr>use_references := Some [[''r'']]\<rparr>) = Some [[''r'']] \<and>
   length [[''r'']] \<noteq> length example_dataset \<and>
   essence (example_essence_env False) (\<lambda>a b d. ''edit'') example_dataset
       (example_kwargs\<lparr>use_references := Some [[''r'']]\<rparr>) unedited =
     (Inl (ValueError ''size mismatch''), unedited) \<and>
   str_count (prompt_template example_kwargs) ''{}'' = 1 \<and>
   use_references example_kwargs = None \<and>
   validate example_kwargs example_dataset = Inr () \<and>
   essence (example_essence_env False) (\<lambda>a b d. ''edit'') example_dataset example_kwargs unedited =
     essence_run (example_essence_env False) (\<lambda>a b d. ''edit'') example_dataset example_kwargs
       unedited"
proof -
  have bad: "str_count (prompt_template (example_kwargs\<lparr>prompt_template := ''{} and {}''\<rparr>)) ''{}'' \<noteq> 1"
    by simp
  have refs: "use_references (example_kwargs\<lparr>use_references := Some [[''r'']]\<rparr>) = Some [[''r'']]"
    "length [[''r'']] \<noteq> length example_dataset"
    by (simp_all add: example_dataset_def)
  have ok: "str_count (prompt_template example_kwargs) ''{}'' = 1"
    "use_references example_kwargs = None"
    by (simp_all add: example_kwargs_def)
  from essence_rejects_invalid_arguments
    [of "example_kwargs\<lparr>prompt_template := ''{} and {}''\<rparr>" "example_essence_env False"
      "\<lambda>a b d. ''edit''" example_dataset unedited] bad
  have 1: "essence (example_essence_env False) (\<lambda>a b d. ''edit'') example_dataset
       (example_kwargs\<lparr>prompt_template := ''{} and {}''\<rparr>) unedited =
     (Inl (ValueError ''prompt template needs 1 empty slot''), unedited)"
    by blast
  from essence_rejects_invalid_arguments
    [of "example_kwargs\<lparr>use_references := Some [[''r'']]\<rparr>" "example_essence_env False"
      "\<lambda>a b d. ''edit''" example_dataset unedited] refs
  have "\<exists>msg. essence (example_essence_env False) (\<lambda>a b d. ''edit'') example_dataset
       (example_kwargs\<lparr>use_references := Some [[''r'']]\<rparr>) unedited =
     (Inl (ValueError msg), unedited)"
    by blast
  then have 2: "essence (example_essence_env False) (\<lambda>a b d. ''edit'') example_dataset
       (example_kwargs\<lparr>use_references := Some [[''r'']]\<rparr>) unedited =
     (Inl (ValueError ''size mismatch''), unedited)"
    by (simp add: essence_def validate_def example_kwargs_def example_dataset_def)
  from essence_rejects_invalid_arguments
    [of example_kwargs "example_essence_env False" "\<lambda>a b d. ''edit''" example_dataset unedited] ok
  have 3: "validate example_kwargs example_dataset = Inr () \<and>
     essence (example_essence_env False) (\<lambda>a b d. ''edit'') example_dataset example_kwargs unedited =
     essence_run (example_essence_env False) (\<lambda>a b d. ''edit'') example_dataset example_kwargs
       unedited"
    by simp
  from bad refs ok 1 2 3 show ?thesis
    by blast
qed

text \<open>
  Claim C5. After every invocation of \<open>essence\<close>, whether it returns or raises, the edits
  in effect on the model are those that were in effect before, so that a later generation
  gives what it gave before; within the invocation, every reference generation on
  \<open>editor.mt\<close>, also in the batches that follow an edited generation, runs under the edits
  that were in effect before, and only the generation inside the scope of \<open>editors.apply\<close>
  runs with the editor's edit in front of them. The scope itself puts the edits back
  whatever its block does.
\<close>

theorem essence_restores_model:
  assumes "essence env ed ds kw m = (r, m')"
  shows "hooks m' = hooks m \<and>
         (\<forall>b inp kvs a ml.
            generate env (hooks m') b inp kvs a ml = generate env (hooks m) b inp kvs a ml) \<and>
         (\<exists>cs. calls m' = calls m @ cs \<and>
            (\<forall>hs ps a b. Generate hs ps a b \<in> set cs \<longrightarrow> hs = hooks m) \<and>
            (\<forall>hs ps a b. Generate_edited hs ps a b \<in> set cs \<longrightarrow>
               hs = ed (alpha kw) (beta kw) (device kw) # hooks m)) \<and>
         (\<forall>h block m0. hooks (snd (apply_scope h block m0)) = hooks m0)"
proof -
  note same = essence_trace(1) [OF assms]
  from essence_trace(2) [OF assms] obtain cs where
    cs: "calls m' = calls m @ cs"
      "set cs \<subseteq> {Load_tfidf_vectorizer} \<union> range (Forward (hooks m)) \<union>
             range (\<lambda>ps. Generate (hooks m) ps (max_new_tokens kw)
                      (if max_length kw = None \<and> max_new_tokens kw = None
                       then Some DEFAULT_MAX_LENGTH else max_length kw)) \<union>
             range (\<lambda>ps. Generate_edited (ed (alpha kw) (beta kw) (device kw) # hooks m) ps
                      (max_new_tokens kw)
                      (if max_length kw = None \<and> max_new_tokens kw = None
                       then Some DEFAULT_MAX_LENGTH else max_length kw))"
    by blast
  from cs(2) have base: "\<forall>hs ps a b. Generate hs ps a b \<in> set cs \<longrightarrow> hs = hooks m"
    and edited: "\<forall>hs ps a b. Generate_edited hs ps a b \<in> set cs \<longrightarrow>
        hs = ed (alpha kw) (beta kw) (device kw) # hooks m"
    by auto
  from same cs(1) base edited show ?thesis
    by (auto simp: apply_scope_restores)
qed

theorem essence_restores_model_witness:
  "essence (example_essence_env True) (\<lambda>a b d. ''edit'') example_dataset example_kwargs unedited =
     (Inl (Raised ''generate''),
      \<lparr>hooks = [],
       calls = [Generate [] [''Paris is''] None (Some 100),
                Generate_edited [''edit''] [''Paris is''] None (Some 100)]\<rparr>) \<and>
   hooks unedited = [] \<and>
   generate (example_essence_env True) [] None [''Paris is''] None None (Some 100) =
     Inr [''Paris is base''] \<and>
   generate (example_essence_env True) [''edit''] None [''Paris is''] None None (Some 100) =
     Inl (Raised ''generate'')"
proof -
  note run = example_run_failing
  from essence_restores_model [OF run] have "hooks \<lparr>hooks = [],
       calls = [Generate [] [''Paris is''] None (Some 100),
                Generate_edited [''edit''] [''Paris is''] None (Some (100::int))]\<rparr> =
      hooks unedited"
    by (elim conjE)
  then have "hooks unedited = []"
    by simp
  with run show ?thesis
    by (simp add: example_essence_env_def)
qed

lemma scores_loop_generate:
  "scores_loop (env\<lparr>generate := g\<rparr>) vec xs acc = scores_loop env vec xs acc"
  by (induction env vec xs acc rule: scores_loop.induct) simp_all

lemma essence_batch_generate:
  assumes "\<forall>hs b inp kvs.
      g hs b inp kvs (max_new_tokens kw) ml = generate env hs b inp kvs (max_new_tokens kw) ml"
  shows "essence_batch (env\<lparr>generate := g\<rparr>) ed kw ml vec pkv ib acc m =
         essence_batch env ed kw ml vec pkv ib acc m"
proof -
  obtain batch_index batch gens rgs es fgs frs where
    ib: "ib = (batch_index, batch)" and acc: "acc = (gens, rgs, es, fgs, frs)"
    by (cases ib; cases acc) auto
  show ?thesis
    using assms
    by (cases "use_references kw")
       (simp_all add: essence_batch_def ib acc Let_def scores_loop_generate)
qed

lemma batches_loop_generate:
  assumes "\<forall>hs b inp kvs.
      g hs b inp kvs (max_new_tokens kw) ml = generate env hs b inp kvs (max_new_tokens kw) ml"
  shows "batches_loop (env\<lparr>generate := g\<rparr>) ed kw ml vec pkv ibs acc m =
         batches_loop env ed kw ml vec pkv ibs acc m"
proof (induction ibs arbitrary: acc m)
  case Nil
  show ?case by simp
next
  case (Cons ib ibs)
  have "essence_batch (env\<lparr>generate := g\<rparr>) ed kw ml vec pkv ib acc m =
      essence_batch env ed kw ml vec pkv ib acc m"
    using assms by (rule essence_batch_generate)
  with Cons.IH show ?case
    by (simp add: thenS_def split: prod.splits sum.splits)
qed

lemma essence_generate:
  assumes "\<forall>hs b inp kvs.
      g hs b inp kvs (max_new_tokens kw)
        (if max_length kw = None \<and> max_new_tokens kw = None
         then Some DEFAULT_MAX_LENGTH else max_length kw) =
      generate env hs b inp kvs (max_new_tokens kw)
        (if max_length kw = None \<and> max_new_tokens kw = None
         then Some DEFAULT_MAX_LENGTH else max_length kw)"
  shows "essence (env\<lparr>generate := g\<rparr>) ed ds kw m = essence env ed ds kw m"
proof -
  define ml where "ml = (if max_length kw = None \<and> max_new_tokens kw = None
         then Some DEFAULT_MAX_LENGTH else max_length kw)"
  have loop: "batches_loop (env\<lparr>generate := g\<rparr>) ed kw ml vec pkv ibs acc m1 =
      batches_loop env ed kw ml vec pkv ibs acc m1" for vec pkv ibs acc m1
    using assms unfolding ml_def by (rule batches_loop_generate)
  have "essence_run (env\<lparr>generate := g\<rparr>) ed ds kw m = essence_run env ed ds kw m"
    unfolding essence_run_def Let_def ml_def [symmetric]
    by (cases "tfidf_vectorizer kw"; cases "prompt_prefix kw") (simp_all add: loop cong: if_cong)
  then show ?thesis
    by (simp add: essence_def split: sum.splits)
qed

lemma comprehension_succeeds:
  assumes "\<forall>x. \<exists>y. f x = Inr y"
  shows "\<exists>ys. comprehension f xs = Inr ys"
proof (induction xs)
  case Nil
  show ?case by simp
next
  case (Cons x xs)
  from assms obtain y where "f x = Inr y" by blast
  with Cons show ?case by auto
qed

lemma essence_batch_raises:
  assumes "\<forall>hs b inp kvs. generate env hs b inp kvs (max_new_tokens kw) ml = Inl e"
    and "\<forall>ent. \<exists>p. format env (prompt_template kw) ent = Inr p"
    and "\<forall>ps. \<exists>i. inputs_from_batch env ps (device kw) = Inr i"
  shows "fst (essence_batch env ed kw ml vec pkv ib acc m) = Inl e"
proof -
  obtain batch_index batch gens rgs es fgs frs where
    ib: "ib = (batch_index, batch)" and acc: "acc = (gens, rgs, es, fgs, frs)"
    by (cases ib; cases acc) auto
  from comprehension_succeeds [OF assms(2)] obtain prompts where
    prompts: "comprehension (format env (prompt_template kw)) (map row_entity batch) = Inr prompts"
    by blast
  from assms(3) obtain inputs where
    inputs: "inputs_from_batch env prompts (device kw) = Inr inputs"
    by blast
  show ?thesis
    using assms(1) prompts inputs
    by (cases "use_references kw")
       (simp_all add: essence_batch_def ib acc Let_def apply_scope_def)
qed


lemma thenS_raises: "fst rm = Inl e \<Longrightarrow> fst (thenS rm f) = Inl e"
  by (cases rm) (simp add: thenS_def)

lemma essence_raises:
  assumes gen: "\<forall>hs b inp kvs.
      generate env hs b inp kvs (max_new_tokens kw)
        (if max_length kw = None \<and> max_new_tokens kw = None
         then Some DEFAULT_MAX_LENGTH else max_length kw) = Inl e"
    and valid: "validate kw ds = Inr ()"
    and rows: "ds \<noteq> []" and size: "0 < batch_size kw"
    and vec: "tfidf_vectorizer kw = None \<longrightarrow> (\<exists>v. load_tfidf_vectorizer env = Inr v)"
    and prefix: "\<forall>p. prompt_prefix kw = Some p \<longrightarrow>
        (\<exists>kvs. forward env (hooks m) p (device kw) = Inr kvs)"
    and fmt: "\<forall>ent. \<exists>p. format env (prompt_template kw) ent = Inr p"
    and inp: "\<forall>ps. \<exists>i. inputs_from_batch env ps (device kw) = Inr i"
  shows "fst (essence env ed ds kw m) = Inl e"
proof -
  define ml where "ml = (if max_length kw = None \<and> max_new_tokens kw = None
         then Some DEFAULT_MAX_LENGTH else max_length kw)"
  from rows obtain r rs where ds: "ds = r # rs"
    by (cases ds) auto
  from size have n: "nat (batch_size kw) \<noteq> 0"
    by simp
  have first: "enumerate 0 (chunks (nat (batch_size kw)) ds) =
      (0, take (nat (batch_size kw)) ds) #
        enumerate 1 (chunks (nat (batch_size kw)) (drop (nat (batch_size kw)) ds))"
    using n by (simp add: ds)
  have batch: "fst (essence_batch env ed kw ml vec pkv ib acc m1) = Inl e" for vec pkv ib acc m1
    using gen fmt inp unfolding ml_def by (rule essence_batch_raises)
  have loop: "fst (batches_loop env ed kw ml vec pkv
      (enumerate 0 (chunks (nat (batch_size kw)) ds)) acc m1) = Inl e" for vec pkv acc m1
    unfolding first by (simp add: thenS_raises batch)
  have "fst (essence_run env ed ds kw m) = Inl e"
  proof (cases "tfidf_vectorizer kw")
    case None
    with vec obtain v where v: "load_tfidf_vectorizer env = Inr v" by blast
    show ?thesis
    proof (cases "prompt_prefix kw")
      case no_prefix: None
      with None v size loop show ?thesis
        unfolding essence_run_def Let_def ml_def [symmetric]
        by (simp add: thenS_raises)
    next
      case (Some p)
      with prefix obtain kvs where "forward env (hooks m) p (device kw) = Inr kvs" by blast
      with None Some v size loop show ?thesis
        unfolding essence_run_def Let_def ml_def [symmetric]
        by (simp add: thenS_raises)
    qed
  next
    case given: (Some v)
    show ?thesis
    proof (cases "prompt_prefix kw")
      case None
      with given size loop show ?thesis
        unfolding essence_run_def Let_def ml_def [symmetric]
        by (simp add: thenS_raises)
    next
      case (Some p)
      with prefix obtain kvs where "forward env (hooks m) p (device kw) = Inr kvs" by blast
      with given Some size loop show ?thesis
        unfolding essence_run_def Let_def ml_def [symmetric]
        by (simp add: thenS_raises)
    qed
  qed
  with valid show ?thesis
    by (simp add: essence_def)
qed


text \<open>
  Claim C8. \<open>DEFAULT_MAX_LENGTH\<close> is 100, and the caps that \<open>essence\<close> hands to generation
  are \<open>max_new_tokens\<close> as supplied and, for \<open>max_length\<close>, the value supplied, unless both
  are \<open>None\<close>: then \<open>DEFAULT_MAX_LENGTH\<close>. The generator is called with no other caps: a
  generator that agrees with the given one at these caps gives the same result and the
  same final state. And it is called with these caps: if the arguments are valid, the
  dataset is not empty and the steps before the first generation succeed, a generator
  that raises at these caps makes \<open>essence\<close> raise that exception. The trace of the calls
  records the same caps.
\<close>

theorem essence_generation_caps:
  "DEFAULT_MAX_LENGTH = 100 \<and>
   ((\<forall>hs b inp kvs.
       g hs b inp kvs (max_new_tokens kw)
         (if max_length kw = None \<and> max_new_tokens kw = None
          then Some DEFAULT_MAX_LENGTH else max_length kw) =
       generate env hs b inp kvs (max_new_tokens kw)
         (if max_length kw = None \<and> max_new_tokens kw = None
          then Some DEFAULT_MAX_LENGTH else max_length kw)) \<longrightarrow>
    essence (env\<lparr>generate := g\<rparr>) ed ds kw m = essence env ed ds kw m) \<and>
   ((\<forall>hs b inp kvs.
       g hs b inp kvs (max_new_tokens kw)
         (if max_length kw = None \<and> max_new_tokens kw = None
          then Some DEFAULT_MAX_LENGTH else max_length kw) = Inl e) \<and>
    validate kw ds = Inr () \<and> ds \<noteq> [] \<and> 0 < batch_size kw \<and>
    (tfidf_vectorizer kw = None \<longrightarrow> (\<exists>v. load_tfidf_vectorizer env = Inr v)) \<and>
    (\<forall>p. prompt_prefix kw = Some p \<longrightarrow>
       (\<exists>kvs. forward env (hooks m) p (device kw) = Inr kvs)) \<and>
    (\<forall>ent. \<exists>p. format env (prompt_template kw) ent = Inr p) \<and>
    (\<forall>ps. \<exists>i. inputs_from_batch env ps (device kw) = Inr i) \<longrightarrow>
    fst (essence (env\<lparr>generate := g\<rparr>) ed ds kw m) = Inl e) \<and>
   (\<exists>cs. calls (snd (essence env ed ds kw m)) = calls m @ cs \<and>
      (\<forall>hs ps a b. Generate hs ps a b \<in> set cs \<or> Generate_edited hs ps a b \<in> set cs \<longrightarrow>
         a = max_new_tokens kw \<and>
         b = (if max_length kw = None \<and> max_new_tokens kw = None
              then Some DEFAULT_MAX_LENGTH else max_length kw)))"
proof (intro conjI impI)
  show "DEFAULT_MAX_LENGTH = 100"
    by (simp add: DEFAULT_MAX_LENGTH_def)
next
  assume "\<forall>hs b inp kvs.
       g hs b inp kvs (max_new_tokens kw)
         (if max_length kw = None \<and> max_new_tokens kw = None
          then Some DEFAULT_MAX_LENGTH else max_length kw) =
       generate env hs b inp kvs (max_new_tokens kw)
         (if max_length kw = None \<and> max_new_tokens kw = None
          then Some DEFAULT_MAX_LENGTH else max_length kw)"
  then show "essence (env\<lparr>generate := g\<rparr>) ed ds kw m = essence env ed ds kw m"
    by (rule essence_generate)
next
  assume a: "(\<forall>hs b inp kvs.
       g hs b inp kvs (max_new_tokens kw)
         (if max_length kw = None \<and> max_new_tokens kw = None
          then Some DEFAULT_MAX_LENGTH else max_length kw) = Inl e) \<and>
    validate kw ds = Inr () \<and> ds \<noteq> [] \<and> 0 < batch_size kw \<and>
    (tfidf_vectorizer kw = None \<longrightarrow> (\<exists>v. load_tfidf_vectorizer env = Inr v)) \<and>
    (\<forall>p. prompt_prefix kw = Some p \<longrightarrow>
       (\<exists>kvs. forward env (hooks m) p (device kw) = Inr kvs)) \<and>
    (\<forall>ent. \<exists>p. format env (prompt_template kw) ent = Inr p) \<and>
    (\<forall>ps. \<exists>i. inputs_from_batch env ps (device kw) = Inr i)"
  show "fst (essence (env\<lparr>generate := g\<rparr>) ed ds kw m) = Inl e"
    by (rule essence_raises) (use a in simp_all)
next
  obtain r m' where run: "essence env ed ds kw m = (r, m')"
    by (cases "essence env ed ds kw m") auto
  from essence_trace(2) [OF run] obtain cs where
    cs: "calls m' = calls m @ cs"
      "set cs \<subseteq> {Load_tfidf_vectorizer} \<union> range (Forward (hooks m)) \<union>
             range (\<lambda>ps. Generate (hooks m) ps (max_new_tokens kw)
                      (if max_length kw = None \<and> max_new_tokens kw = None
                       then Some DEFAULT_MAX_LENGTH else max_length kw)) \<union>
             range (\<lambda>ps. Generate_edited (ed (alpha kw) (beta kw) (device kw) # hooks m) ps
                      (max_new_tokens kw)
                      (if max_length kw = None \<and> max_new_tokens kw = None
                       then Some DEFAULT_MAX_LENGTH else max_length kw))"
    by blast
  from cs(2) have caps: "\<forall>hs ps a b. Generate hs ps a b \<in> set cs \<or> Generate_edited hs ps a b \<in> set cs \<longrightarrow>
      a = max_new_tokens kw \<and>
      b = (if max_length kw = None \<and> max_new_tokens kw = None
           then Some DEFAULT_MAX_LENGTH else max_length kw)"
    by (auto split: if_splits)
  from cs(1) run have "calls (snd (essence env ed ds kw m)) = calls m @ cs"
    by simp
  with caps show "\<exists>cs. calls (snd (essence env ed ds kw m)) = calls m @ cs \<and>
      (\<forall>hs ps a b. Generate hs ps a b \<in> set cs \<or> Generate_edited hs ps a b \<in> set cs \<longrightarrow>
         a = max_new_tokens kw \<and>
         b = (if max_length kw = None \<and> max_new_tokens kw = None
              then Some DEFAULT_MAX_LENGTH else max_length kw))"
    by blast
qed

theorem essence_generation_caps_witness:
  "max_new_tokens example_kwargs = None \<and> max_length example_kwargs = None \<and>
   essence
     ((example_essence_env False)
        \<lparr>generate := \<lambda>hs b inp kvs a ml.
           if a = None \<and> ml = Some 100
           then generate (example_essence_env False) hs b inp kvs a ml
           else Inl (Raised ''other caps'')\<rparr>)
     (\<lambda>a b d. ''edit'') example_dataset example_kwargs unedited =
     (Inr \<lparr>essence_samples =
             [\<lparr>sample_ident = ''s0'', generation = ''Paris is edited'',
               references = [''Paris is base''], essence_score = 1,
               fluency_generation_score = 1, fluency_references_score = 1\<rparr>,
              \<lparr>sample_ident = ''s1'', generation = ''Rome is edited'',
               references = [''Rome is base''], essence_score = 1,
               fluency_generation_score = 1, fluency_references_score = 1\<rparr>],
           essence_metrics =
             \<lparr>essence_metric = 2, fluency_generaton = 2, fluency_references = 2\<rparr>\<rparr>,
      \<lparr>hooks = [],
       calls = [Generate [] [''Paris is''] None (Some 100),
                Generate_edited [''edit''] [''Paris is''] None (Some 100),
                Generate [] [''Rome is''] None (Some 100),
                Generate_edited [''edit''] [''Rome is''] None (Some 100)]\<rparr>) \<and>
   fst (essence
     ((example_essence_env False)
        \<lparr>generate := \<lambda>hs b inp kvs a ml.
           if a = None \<and> ml = Some 100 then Inl (Raised ''caps'')
           else generate (example_essence_env False) hs b inp kvs a ml\<rparr>)
     (\<lambda>a b d. ''edit'') example_dataset example_kwargs unedited) = Inl (Raised ''caps'')"
proof -
  have kw: "max_new_tokens example_kwargs = None" "max_length example_kwargs = None"
    "tfidf_vectorizer example_kwargs = Some ()" "prompt_prefix example_kwargs = None"
    "batch_size example_kwargs = 1"
    by (simp_all add: example_kwargs_def)
  let ?env = "example_essence_env False"
  let ?g1 = "\<lambda>hs b inp kvs a ml.
           if a = None \<and> ml = Some (100::int)
           then generate ?env hs b inp kvs a ml
           else Inl (Raised ''other caps'')"
  let ?g2 = "\<lambda>hs b inp kvs a ml.
           if a = None \<and> ml = Some (100::int) then Inl (Raised ''caps'')
           else generate ?env hs b inp kvs a ml"
  note inst1 = essence_generation_caps
    [of ?g1 example_kwargs ?env "\<lambda>a b d. ''edit''" example_dataset unedited]
  note inst2 = essence_generation_caps
    [of ?g2 example_kwargs ?env "\<lambda>a b d. ''edit''" example_dataset unedited "Raised ''caps''"]
  have same: "essence (?env\<lparr>generate := ?g1\<rparr>) (\<lambda>a b d. ''edit'') example_dataset
      example_kwargs unedited =
      essence ?env (\<lambda>a b d. ''edit'') example_dataset example_kwargs unedited"
    using inst1 by (simp add: kw DEFAULT_MAX_LENGTH_def)
  have valid: "validate example_kwargs example_dataset = Inr ()"
    by (simp add: validate_def example_kwargs_def)
  have rows: "example_dataset \<noteq> []"
    by (simp add: example_dataset_def)
  have steps: "\<forall>ent. \<exists>p. format ?env (prompt_template example_kwargs) ent = Inr p"
    "\<forall>ps. \<exists>i. inputs_from_batch ?env ps (device example_kwargs) = Inr i"
    by (simp_all add: example_essence_env_def)
  have raises: "fst (essence (?env\<lparr>generate := ?g2\<rparr>) (\<lambda>a b d. ''edit'') example_dataset
      example_kwargs unedited) = Inl (Raised ''caps'')"
    using inst2 valid rows steps by (simp add: kw DEFAULT_MAX_LENGTH_def)
  from same raises kw(1,2) show ?thesis
    by (simp add: example_run_ok)
qed

section \<open>Properties of the classification benchmark\<close>

lemma count_pairs_example [simp]:
  "count_pairs t p [a] [b] = (if a = t \<and> b = p then 1 else 0)"
  by (auto simp: count_pairs_def)

lemma runs_loop_both:
  "runs_loop classify [''contextual'', ''decontextual''] (Map.empty, None) = Inr (runs, key) \<longleftrightarrow>
     (\<exists>rc rd. classify ''prompt_in_context'' = Inr rc \<and> classify ''prompt'' = Inr rd \<and>
        runs = [''contextual'' \<mapsto> rc, ''decontextual'' \<mapsto> rd] \<and> key = Some ''decontextual'')"
  by (auto simp: bindE_Inr_iff)

lemma tasks_loop_both:
  "tasks_loop sk key smpls method [''contextual'', ''decontextual''] [] = Inr d \<longleftrightarrow>
     (\<exists>c dc. task_metrics sk key smpls method ''contextual'' = Inr c \<and>
        task_metrics sk key smpls method ''decontextual'' = Inr dc \<and>
        d = [(''contextual'', c), (''decontextual'', dc)])"
  by (auto simp: bindE_Inr_iff)

lemma methods_loop_both:
  "methods_loop sk key smpls [''editor'', ''baseline''] [] = Inr kw \<longleftrightarrow>
     (\<exists>ec ed bc bd.
        task_metrics sk key smpls ''editor'' ''contextual'' = Inr ec \<and>
        task_metrics sk key smpls ''editor'' ''decontextual'' = Inr ed \<and>
        task_metrics sk key smpls ''baseline'' ''contextual'' = Inr bc \<and>
        task_metrics sk key smpls ''baseline'' ''decontextual'' = Inr bd \<and>
        kw = [(''editor'', [(''contextual'', ec), (''decontextual'', ed)]),
              (''baseline'', [(''contextual'', bc), (''decontextual'', bd)])])"
  by (auto simp: bindE_Inr_iff tasks_loop_both)

lemma ClassifierResults_kwargs_both [simp]:
  "ClassifierResults_kwargs [(''contextual'', c), (''decontextual'', dc)] =
     Inr \<lparr>contextual_metrics = c, decontextual_metrics = dc\<rparr>"
  by (simp add: ClassifierResults_kwargs_def)

lemma ClassificationBenchmarkResults_kwargs_both [simp]:
  "ClassificationBenchmarkResults_kwargs smpls [(''editor'', e), (''baseline'', b)] =
     Inr \<lparr>samples = smpls, editor = e, baseline = b\<rparr>"
  by (simp add: ClassificationBenchmarkResults_kwargs_def)

lemma classification_Inr_iff:
  "classification sk precomputed classify = Inr res \<longleftrightarrow>
     (\<exists>pre rc rd smpls ec ed bc bd.
        precomputed = Inr pre \<and>
        classify ''prompt_in_context'' = Inr rc \<and> classify ''prompt'' = Inr rd \<and>
        samples_loop (zip pre (zip rc rd)) [] = Inr smpls \<and>
        task_metrics sk (Some ''decontextual'') smpls ''editor'' ''contextual'' = Inr ec \<and>
        task_metrics sk (Some ''decontextual'') smpls ''editor'' ''decontextual'' = Inr ed \<and>
        task_metrics sk (Some ''decontextual'') smpls ''baseline'' ''contextual'' = Inr bc \<and>
        task_metrics sk (Some ''decontextual'') smpls ''baseline'' ''decontextual'' = Inr bd \<and>
        res = \<lparr>samples = smpls,
                editor = \<lparr>contextual_metrics = ec, decontextual_metrics = ed\<rparr>,
                baseline = \<lparr>contextual_metrics = bc, decontextual_metrics = bd\<rparr>\<rparr>)"
  unfolding classification_def
  by (auto simp: bindE_Inr_iff runs_loop_both methods_loop_both getitem_def)

lemma example_samples_built:
  "samples_loop (zip example_precomputed
      [(\<lparr>classified_id = ''s0'', score_mediated = 1, score_unmediated = 0\<rparr>,
        \<lparr>classified_id = ''s0'', score_mediated = 1, score_unmediated = 0\<rparr>)]) []
   = Inr example_samples"
  by (simp add: example_precomputed_def example_samples_def make_sample_def getitem_def)

lemma example_tm:
  "task_metrics sklearn (Some ''decontextual'') example_samples ''editor'' ''contextual''
     = Inr \<lparr>f1 = 0, mcc = 0, accuracy = 0\<rparr>"
  "task_metrics sklearn (Some ''decontextual'') example_samples ''editor'' ''decontextual''
     = Inr \<lparr>f1 = 0, mcc = 0, accuracy = 0\<rparr>"
  "task_metrics sklearn (Some ''decontextual'') example_samples ''baseline'' ''contextual''
     = Inr \<lparr>f1 = 0, mcc = 0, accuracy = 1\<rparr>"
  "task_metrics sklearn (Some ''decontextual'') example_samples ''baseline'' ''decontextual''
     = Inr \<lparr>f1 = 1, mcc = 0, accuracy = 1\<rparr>"
  "task_metrics sklearn (Some ''contextual'') example_samples ''editor'' ''contextual''
     = Inr \<lparr>f1 = 0, mcc = 0, accuracy = 1\<rparr>"
  by (simp_all add: task_metrics_def gather_labels_def gather_predictions_def example_samples_def
      getattr_sample_def label_def prediction_def score_def sklearn_def checked_def
      accuracy_value_def f1_value_def mcc_value_def majority_def)

lemma example_run:
  "classification sklearn (Inr example_precomputed) example_classify =
     Inr \<lparr>samples = example_samples,
          editor = \<lparr>contextual_metrics = \<lparr>f1 = 0, mcc = 0, accuracy = 0\<rparr>,
                    decontextual_metrics = \<lparr>f1 = 0, mcc = 0, accuracy = 0\<rparr>\<rparr>,
          baseline = \<lparr>contextual_metrics = \<lparr>f1 = 0, mcc = 0, accuracy = 1\<rparr>,
                      decontextual_metrics = \<lparr>f1 = 1, mcc = 0, accuracy = 1\<rparr>\<rparr>\<rparr>"
  by (simp add: classification_Inr_iff example_classify_def example_samples_built example_tm)


lemma comprehension_Inr_iff:
  "comprehension f xs = Inr ys \<longleftrightarrow> list_all2 (\<lambda>x y. f x = Inr y) xs ys"
proof (induction xs arbitrary: ys)
  case Nil
  show ?case by auto
next
  case (Cons x xs)
  show ?case
    by (cases ys) (auto simp: bindE_Inr_iff Cons.IH)
qed

lemma comprehension_total:
  "comprehension (\<lambda>x. Inr (g x)) xs = Inr (map g xs)"
  by (induction xs) simp_all

lemma samples_loop_comprehension:
  "samples_loop xs acc = bindE (comprehension make_sample xs) (\<lambda>ys. Inr (acc @ ys))"
proof (induction xs arbitrary: acc)
  case Nil
  show ?case by simp
next
  case (Cons x xs)
  show ?case
    by (cases "make_sample x"; cases "comprehension make_sample xs") (simp_all add: Cons.IH)
qed

lemma samples_loop_Inr_iff:
  "samples_loop xs [] = Inr smpls \<longleftrightarrow> list_all2 (\<lambda>x s. make_sample x = Inr s) xs smpls"
  by (simp add: samples_loop_comprehension bindE_Inr_iff comprehension_Inr_iff)

lemma make_sample_InrD:
  assumes "make_sample (pre, rc, rd) = Inr s"
  shows "id_sample s = classified_id rc"
    and "score_target (contextual s) = score_mediated rc"
    and "score_comparator (contextual s) = score_unmediated rc"
    and "score_target (decontextual s) = score_unmediated rd"
    and "score_comparator (decontextual s) = score_mediated rd"
    and "pre ''prompt_in_context.target.logp'' = Some (logp_target (contextual s))"
    and "pre ''prompt_in_context.comparator.logp'' = Some (logp_comparator (contextual s))"
    and "pre ''prompt.target.logp'' = Some (logp_target (decontextual s))"
    and "pre ''prompt.comparator.logp'' = Some (logp_comparator (decontextual s))"
  using assms
  by (auto simp: make_sample_def bindE_Inr_iff getitem_def split: option.splits)

lemma gather_labels_key:
  "gather_labels (Some ''decontextual'') smpls = Inr (map (\<lambda>s. label (decontextual s)) smpls)"
  "gather_labels (Some ''contextual'') smpls = Inr (map (\<lambda>s. label (contextual s)) smpls)"
  by (simp_all add: gather_labels_def getattr_sample_def comprehension_total)

lemma gather_predictions_key:
  "gather_predictions (Some ''decontextual'') smpls =
     Inr (map (\<lambda>s. prediction (decontextual s)) smpls)"
  "gather_predictions (Some ''contextual'') smpls =
     Inr (map (\<lambda>s. prediction (contextual s)) smpls)"
  by (simp_all add: gather_predictions_def getattr_sample_def comprehension_total)

lemma count_pairs_negated:
  "count_pairs t p (map Not y_true) (map Not y_pred) = count_pairs (\<not> t) (\<not> p) y_true y_pred"
proof -
  have "zip (map Not y_true) (map Not y_pred) = map (\<lambda>(a, b). (\<not> a, \<not> b)) (zip y_true y_pred)"
    by (simp add: zip_map_map)
  moreover have "(\<lambda>yp. yp = (t, p)) \<circ> (\<lambda>(a, b). (\<not> a, \<not> b)) = (\<lambda>yp. yp = (\<not> t, \<not> p))"
    by (auto simp: fun_eq_iff)
  ultimately show ?thesis
    by (simp add: count_pairs_def filter_map)
qed

lemma accuracy_value_negated:
  "accuracy_value (map Not y_true) (map Not y_pred) = accuracy_value y_true y_pred"
  by (simp add: accuracy_value_def count_pairs_negated add.commute)

lemma mcc_value_negated:
  "mcc_value (map Not y_true) (map Not y_pred) = mcc_value y_true y_pred"
  by (simp add: mcc_value_def count_pairs_negated Let_def mult_ac add.commute)

lemma checked_negated:
  assumes "stat (map Not y_true) (map Not y_pred) = stat y_true y_pred"
  shows "checked stat (map Not y_true) (map Not y_pred) = checked stat y_true y_pred"
  using assms by (simp add: checked_def)


lemma task_metrics_decontextual_key:
  "task_metrics sk (Some ''decontextual'') smpls method task =
     (let y_true0 = map (\<lambda>s. label (decontextual s)) smpls;
          y_pred0 = map (\<lambda>s. prediction (decontextual s)) smpls;
          y_pred1 = (if method = ''baseline''
                     then replicate (length y_true0) (majority y_true0) else y_pred0)
      in if task = ''contextual'' then score sk (map Not y_true0) (map Not y_pred1)
         else score sk y_true0 y_pred1)"
  by (simp add: task_metrics_def gather_labels_key gather_predictions_key Let_def)

text \<open>
  Claim C1 says that the scores reported for the contextual task are computed from the
  samples' contextual classifier outputs. The scoring loop reads \<open>getattr(sample, key)\<close>,
  and \<open>key\<close> is the variable of the earlier loop over the two runs, which holds
  \<open>"decontextual"\<close> by then; the loop's own variable is \<open>task\<close>. On the dataset of one
  sample above, whose contextual outputs give label and prediction (true, true) and whose
  decontextual outputs give (true, false), the benchmark reports the contextual accuracy 0
  of the editor, which is the score of the negated decontextual outputs; the negated
  contextual outputs score the accuracy 1.
\<close>

theorem classification_contextual_scores_ignore_contextual_outputs:
  "classification sklearn (Inr example_precomputed) example_classify =
     Inr \<lparr>samples = example_samples,
          editor = \<lparr>contextual_metrics = \<lparr>f1 = 0, mcc = 0, accuracy = 0\<rparr>,
                    decontextual_metrics = \<lparr>f1 = 0, mcc = 0, accuracy = 0\<rparr>\<rparr>,
          baseline = \<lparr>contextual_metrics = \<lparr>f1 = 0, mcc = 0, accuracy = 1\<rparr>,
                      decontextual_metrics = \<lparr>f1 = 1, mcc = 0, accuracy = 1\<rparr>\<rparr>\<rparr> \<and>
   map (\<lambda>s. (label (contextual s), prediction (contextual s))) example_samples =
     [(True, True)] \<and>
   map (\<lambda>s. (label (decontextual s), prediction (decontextual s))) example_samples =
     [(True, False)] \<and>
   score sklearn (map Not [True]) (map Not [True]) = Inr \<lparr>f1 = 0, mcc = 0, accuracy = 1\<rparr> \<and>
   score sklearn (map Not [True]) (map Not [False]) = Inr \<lparr>f1 = 0, mcc = 0, accuracy = 0\<rparr>"
proof (intro conjI)
  show "classification sklearn (Inr example_precomputed) example_classify =
     Inr \<lparr>samples = example_samples,
          editor = \<lparr>contextual_metrics = \<lparr>f1 = 0, mcc = 0, accuracy = 0\<rparr>,
                    decontextual_metrics = \<lparr>f1 = 0, mcc = 0, accuracy = 0\<rparr>\<rparr>,
          baseline = \<lparr>contextual_metrics = \<lparr>f1 = 0, mcc = 0, accuracy = 1\<rparr>,
                      decontextual_metrics = \<lparr>f1 = 1, mcc = 0, accuracy = 1\<rparr>\<rparr>\<rparr>"
    by (rule example_run)
qed (simp_all add: example_samples_def label_def prediction_def score_def sklearn_def
      checked_def accuracy_value_def f1_value_def mcc_value_def)

text \<open>
  Claim C2. Whenever the benchmark returns, the metrics it reports for the contextual task,
  for the editor and for the baseline, are the scores of the element-wise negated label and
  prediction sequences, while those of the decontextual task are the scores of the
  sequences as gathered. For the standard accuracy and Matthews coefficient, negating both
  sequences of a pair of equal length changes nothing; F1 can change, as on the pair
  \<open>[True]\<close>, \<open>[True]\<close>.
\<close>

theorem contextual_polarity_flip:
  assumes "classification sk precomputed classify = Inr res"
  shows "(\<exists>y_true y_pred.
            gather_labels (Some ''decontextual'') (samples res) = Inr y_true \<and>
            gather_predictions (Some ''decontextual'') (samples res) = Inr y_pred \<and>
            score sk (map Not y_true) (map Not y_pred) = Inr (contextual_metrics (editor res)) \<and>
            score sk (map Not y_true) (map Not (replicate (length y_true) (majority y_true))) =
              Inr (contextual_metrics (baseline res)) \<and>
            score sk y_true y_pred = Inr (decontextual_metrics (editor res)) \<and>
            score sk y_true (replicate (length y_true) (majority y_true)) =
              Inr (decontextual_metrics (baseline res))) \<and>
         (\<forall>ys ps. length ys = length ps \<longrightarrow>
            accuracy_score sklearn (map Not ys) (map Not ps) = accuracy_score sklearn ys ps \<and>
            matthews_corrcoef sklearn (map Not ys) (map Not ps) = matthews_corrcoef sklearn ys ps) \<and>
         f1_score sklearn (map Not [True]) (map Not [True]) \<noteq> f1_score sklearn [True] [True]"
proof (intro conjI allI impI)
  from assms obtain smpls ec ed bc bd where
    tm: "task_metrics sk (Some ''decontextual'') smpls ''editor'' ''contextual'' = Inr ec"
        "task_metrics sk (Some ''decontextual'') smpls ''editor'' ''decontextual'' = Inr ed"
        "task_metrics sk (Some ''decontextual'') smpls ''baseline'' ''contextual'' = Inr bc"
        "task_metrics sk (Some ''decontextual'') smpls ''baseline'' ''decontextual'' = Inr bd"
    and res: "res = \<lparr>samples = smpls,
                editor = \<lparr>contextual_metrics = ec, decontextual_metrics = ed\<rparr>,
                baseline = \<lparr>contextual_metrics = bc, decontextual_metrics = bd\<rparr>\<rparr>"
    unfolding classification_Inr_iff by blast
  show "\<exists>y_true y_pred.
            gather_labels (Some ''decontextual'') (samples res) = Inr y_true \<and>
            gather_predictions (Some ''decontextual'') (samples res) = Inr y_pred \<and>
            score sk (map Not y_true) (map Not y_pred) = Inr (contextual_metrics (editor res)) \<and>
            score sk (map Not y_true) (map Not (replicate (length y_true) (majority y_true))) =
              Inr (contextual_metrics (baseline res)) \<and>
            score sk y_true y_pred = Inr (decontextual_metrics (editor res)) \<and>
            score sk y_true (replicate (length y_true) (majority y_true)) =
              Inr (decontextual_metrics (baseline res))"
    using tm unfolding res task_metrics_decontextual_key
    by (simp add: gather_labels_key gather_predictions_key Let_def)
next
  fix ys ps :: "bool list"
  show "accuracy_score sklearn (map Not ys) (map Not ps) = accuracy_score sklearn ys ps"
    by (simp add: sklearn_def checked_negated accuracy_value_negated)
  show "matthews_corrcoef sklearn (map Not ys) (map Not ps) = matthews_corrcoef sklearn ys ps"
    by (simp add: sklearn_def checked_negated mcc_value_negated)
next
  show "f1_score sklearn (map Not [True]) (map Not [True]) \<noteq> f1_score sklearn [True] [True]"
    by (simp add: sklearn_def checked_def f1_value_def)
qed

theorem contextual_polarity_flip_witness:
  "classification sklearn (Inr example_precomputed) example_classify =
     Inr \<lparr>samples = example_samples,
          editor = \<lparr>contextual_metrics = \<lparr>f1 = 0, mcc = 0, accuracy = 0\<rparr>,
                    decontextual_metrics = \<lparr>f1 = 0, mcc = 0, accuracy = 0\<rparr>\<rparr>,
          baseline = \<lparr>contextual_metrics = \<lparr>f1 = 0, mcc = 0, accuracy = 1\<rparr>,
                      decontextual_metrics = \<lparr>f1 = 1, mcc = 0, accuracy = 1\<rparr>\<rparr>\<rparr> \<and>
   score sklearn (map Not [True]) (map Not [False]) = Inr \<lparr>f1 = 0, mcc = 0, accuracy = 0\<rparr> \<and>
   length [True, False] = length [True, True] \<and>
   accuracy_score sklearn (map Not [True, False]) (map Not [True, True]) =
     accuracy_score sklearn [True, False] [True, True] \<and>
   matthews_corrcoef sklearn (map Not [True, False]) (map Not [True, True]) =
     matthews_corrcoef sklearn [True, False] [True, True]"
proof -
  note run = example_run
  from contextual_polarity_flip [OF run]
  have "score sklearn (map Not (map (\<lambda>s. label (decontextual s)) example_samples))
          (map Not (map (\<lambda>s. prediction (decontextual s)) example_samples)) =
        Inr \<lparr>f1 = 0, mcc = 0, accuracy = 0\<rparr>"
    and inv: "\<forall>ys ps. length ys = length ps \<longrightarrow>
            accuracy_score sklearn (map Not ys) (map Not ps) = accuracy_score sklearn ys ps \<and>
            matthews_corrcoef sklearn (map Not ys) (map Not ps) = matthews_corrcoef sklearn ys ps"
    by (simp_all add: gather_labels_key gather_predictions_key)
  then have "score sklearn (map Not [True]) (map Not [False]) = Inr \<lparr>f1 = 0, mcc = 0, accuracy = 0\<rparr>"
    by (simp add: example_samples_def label_def prediction_def)
  moreover from inv have
    "accuracy_score sklearn (map Not [True, False]) (map Not [True, True]) =
       accuracy_score sklearn [True, False] [True, True] \<and>
     matthews_corrcoef sklearn (map Not [True, False]) (map Not [True, True]) =
       matthews_corrcoef sklearn [True, False] [True, True]"
    by (elim allE [of _ "[True, False]"] allE [of _ "[True, True]"]) simp
  ultimately show ?thesis
    using run by simp
qed

text \<open>
  Claim C9. In every sample the benchmark builds, the decontextual outputs hold the
  decontextual run's unmediated score as \<open>score_target\<close> and its mediated score as
  \<open>score_comparator\<close>, and the contextual outputs hold the contextual run's scores the other
  way round; so the decontextual prediction is true exactly when the unmediated score
  exceeds the mediated one, and the contextual prediction exactly when the mediated score
  exceeds the unmediated one.
\<close>

theorem decontextual_scores_reversed:
  assumes "classification sk precomputed classify = Inr res"
    and "classify ''prompt_in_context'' = Inr rc"
    and "classify ''prompt'' = Inr rd"
    and "i < length (samples res)"
  shows "i < length rc \<and> i < length rd \<and>
         score_target (decontextual (samples res ! i)) = score_unmediated (rd ! i) \<and>
         score_comparator (decontextual (samples res ! i)) = score_mediated (rd ! i) \<and>
         score_target (contextual (samples res ! i)) = score_mediated (rc ! i) \<and>
         score_comparator (contextual (samples res ! i)) = score_unmediated (rc ! i) \<and>
         prediction (decontextual (samples res ! i)) =
           (score_unmediated (rd ! i) > score_mediated (rd ! i)) \<and>
         prediction (contextual (samples res ! i)) =
           (score_mediated (rc ! i) > score_unmediated (rc ! i))"
proof -
  from assms(1-3) obtain pre where
    built: "list_all2 (\<lambda>x s. make_sample x = Inr s) (zip pre (zip rc rd)) (samples res)"
    unfolding classification_Inr_iff samples_loop_Inr_iff by auto
  then have len: "length (zip pre (zip rc rd)) = length (samples res)"
    by (rule list_all2_lengthD)
  with assms(4) have i: "i < length pre" "i < length rc" "i < length rd"
    by simp_all
  from assms(4) len have "i < length (zip pre (zip rc rd))"
    by simp
  from list_all2_nthD [OF built this]
  have "make_sample (zip pre (zip rc rd) ! i) = Inr (samples res ! i)" .
  with i have "make_sample (pre ! i, rc ! i, rd ! i) = Inr (samples res ! i)"
    by simp
  from make_sample_InrD(2-5) [OF this] i(2,3) show ?thesis
    by (simp add: prediction_def)
qed

theorem decontextual_scores_reversed_witness:
  "classification sklearn (Inr example_precomputed) example_classify =
     Inr \<lparr>samples = example_samples,
          editor = \<lparr>contextual_metrics = \<lparr>f1 = 0, mcc = 0, accuracy = 0\<rparr>,
                    decontextual_metrics = \<lparr>f1 = 0, mcc = 0, accuracy = 0\<rparr>\<rparr>,
          baseline = \<lparr>contextual_metrics = \<lparr>f1 = 0, mcc = 0, accuracy = 1\<rparr>,
                      decontextual_metrics = \<lparr>f1 = 1, mcc = 0, accuracy = 1\<rparr>\<rparr>\<rparr> \<and>
   (0::nat) < length example_samples \<and>
   score_target (decontextual (example_samples ! 0)) = 0 \<and>
   score_comparator (decontextual (example_samples ! 0)) = 1 \<and>
   score_target (contextual (example_samples ! 0)) = 1 \<and>
   score_comparator (contextual (example_samples ! 0)) = 0 \<and>
   \<not> prediction (decontextual (example_samples ! 0)) \<and>
   prediction (contextual (example_samples ! 0))"
proof -
  note run = example_run
  have c: "example_classify ''prompt_in_context'' =
            Inr [\<lparr>classified_id = ''s0'', score_mediated = 1, score_unmediated = 0\<rparr>]"
    and d: "example_classify ''prompt'' =
            Inr [\<lparr>classified_id = ''s0'', score_mediated = 1, score_unmediated = 0\<rparr>]"
    by (simp_all add: example_classify_def)
  have i: "0 < length (samples \<lparr>samples = example_samples,
          editor = \<lparr>contextual_metrics = \<lparr>f1 = 0, mcc = 0, accuracy = 0\<rparr>,
                    decontextual_metrics = \<lparr>f1 = 0, mcc = 0, accuracy = (0::real)\<rparr>\<rparr>,
          baseline = \<lparr>contextual_metrics = \<lparr>f1 = 0, mcc = 0, accuracy = 1\<rparr>,
                      decontextual_metrics = \<lparr>f1 = 1, mcc = 0, accuracy = (1::real)\<rparr>\<rparr>\<rparr>)"
    by (simp add: example_samples_def)
  from decontextual_scores_reversed [OF run c d i] run show ?thesis
    by (simp add: example_samples_def)
qed

end
